theory Spec2Isabelle
  imports Complex_Main
begin

section \<open>GenBanana: the placeholder dimensions and the generation workflow\<close>

text \<open>
  A shallow embedding of \<^verbatim>\<open>src/index.tsx\<close>. The page keeps its state in DOM elements
  and calls three things it does not define: the canvas of the browser, the
  \<^verbatim>\<open>generateContent\<close> call of the image model, and the built-in functions of the
  language. The DOM elements are the fields of a record that every function takes and
  returns; the canvas and the remote call are fields of an environment record; the
  built-ins that the code uses are defined here.

  Strings are sequences of code units. A \<^typ>\<open>char\<close> has 8 bits, so the strings of this
  theory are the strings whose code units are below 256.

  The script registers two listeners, a click on the button and the Enter key in the
  prompt box, and each starts a run of \<^verbatim>\<open>generateImage\<close>. A run stops at its
  \<^verbatim>\<open>await\<close> and goes on when its call settles; what happens on the page in between is
  the subject of the last part of the model.
\<close>

subsection \<open>Numbers\<close>

text \<open>
  A value of the number type is a double: a finite value, a zero of either sign, an
  infinity of either sign, or NaN. \<open>Num a\<close> is the finite double whose exact value is the
  rational \<open>a\<close>, and \<open>Num 0\<close> is the positive zero. Every operation below computes the
  exact result and rounds it to the nearest double, to the even one of two that are
  equally near, as the arithmetic of the language does.
\<close>

datatype number = Num rat | NegZero | PosInfinity | NegInfinity | NaN

fun is_negative :: "number \<Rightarrow> bool" where
  "is_negative (Num a) = (a < 0)"
| "is_negative NegZero = True"
| "is_negative NegInfinity = True"
| "is_negative PosInfinity = False"
| "is_negative NaN = False"

text \<open>The absolute value of a finite number.\<close>

fun magnitude :: "number \<Rightarrow> rat" where
  "magnitude (Num a) = \<bar>a\<bar>"
| "magnitude a = 0"

fun is_zero :: "number \<Rightarrow> bool" where
  "is_zero (Num a) = (a = 0)"
| "is_zero NegZero = True"
| "is_zero a = False"

fun is_infinite :: "number \<Rightarrow> bool" where
  "is_infinite PosInfinity = True"
| "is_infinite NegInfinity = True"
| "is_infinite a = False"

definition signed_infinity :: "bool \<Rightarrow> number" where
  "signed_infinity negative = (if negative then NegInfinity else PosInfinity)"

text \<open>The integer part of the binary logarithm of a positive integer.\<close>

function log2_floor :: "int \<Rightarrow> nat" where
  "log2_floor n = (if n < 2 then 0 else Suc (log2_floor (n div 2)))"
  by pat_completeness auto
termination
  by (relation "measure nat") auto

definition pow2 :: "int \<Rightarrow> rat" where
  "pow2 k = (if 0 \<le> k then 2 ^ nat k else 1 / 2 ^ nat (- k))"

text \<open>
  The binade of a positive rational \<open>x\<close>: the integer \<open>e\<close> with
  \<open>pow2 e \<le> x < pow2 (e + 1)\<close>. Below 1 it is minus the least \<open>k\<close> with
  \<open>1 / x \<le> pow2 k\<close>.
\<close>

definition binade :: "rat \<Rightarrow> int" where
  "binade x =
     (if 1 \<le> x then int (log2_floor \<lfloor>x\<rfloor>)
      else - int (let n = \<lceil>1 / x\<rceil> in if n \<le> 1 then 0 else Suc (log2_floor (n - 1))))"

text \<open>
  The distance between neighbouring doubles around \<open>x\<close>: a double has 53 significant
  bits, and below \<open>pow2 (- 1022)\<close>, in the subnormal range, the distance stays
  \<open>pow2 (- 1074)\<close>.
\<close>

definition ulp :: "rat \<Rightarrow> rat" where
  "ulp x = pow2 (max (binade x) (- 1022) - 52)"

definition round_half_even :: "rat \<Rightarrow> int" where
  "round_half_even y =
     (let n = \<lfloor>y\<rfloor>; r = y - of_int n
      in if r < 1 / 2 then n
         else if 1 / 2 < r then n + 1
         else if even n then n else n + 1)"

definition nearest :: "rat \<Rightarrow> rat" where
  "nearest x = of_int (round_half_even (x / ulp x)) * ulp x"

text \<open>
  A magnitude rounded to a double: \<open>None\<close> when the rounded value reaches \<open>2 ^ 1024\<close>,
  where the result is an infinity.
\<close>

definition round_magnitude :: "rat \<Rightarrow> rat option" where
  "round_magnitude x =
     (if x = 0 then Some 0
      else if 2 ^ 1024 \<le> nearest x then None
      else Some (nearest x))"

text \<open>The double nearest to the real number with the given sign and magnitude.\<close>

definition to_number :: "bool \<Rightarrow> rat \<Rightarrow> number" where
  "to_number negative x =
     (case round_magnitude x of
        None \<Rightarrow> signed_infinity negative
      | Some r \<Rightarrow>
          if r = 0 then (if negative then NegZero else Num 0)
          else Num (if negative then - r else r))"

text \<open>\<^verbatim>\<open>a >= b\<close>: false as soon as one side is NaN; the two zeros are equal.\<close>

fun js_ge :: "number \<Rightarrow> number \<Rightarrow> bool" where
  "js_ge NaN b = False"
| "js_ge a NaN = False"
| "js_ge PosInfinity b = True"
| "js_ge a NegInfinity = True"
| "js_ge a PosInfinity = False"
| "js_ge NegInfinity b = False"
| "js_ge a b =
     ((if is_negative b then - magnitude b else magnitude b)
        \<le> (if is_negative a then - magnitude a else magnitude a))"

text \<open>\<^verbatim>\<open>a * b\<close>: a zero times an infinity is NaN; the sign is that of the exact product.\<close>

definition js_mul :: "number \<Rightarrow> number \<Rightarrow> number" where
  "js_mul a b =
     (if a = NaN \<or> b = NaN then NaN
      else if is_infinite a \<or> is_infinite b
      then (if is_zero a \<or> is_zero b then NaN
            else signed_infinity (is_negative a \<noteq> is_negative b))
      else to_number (is_negative a \<noteq> is_negative b) (magnitude a * magnitude b))"

text \<open>
  \<^verbatim>\<open>a / b\<close>: an infinity over an infinity and a zero over a zero are NaN, every other
  value over a zero is an infinity, a finite value over an infinity is a zero.
\<close>

definition js_div :: "number \<Rightarrow> number \<Rightarrow> number" where
  "js_div a b =
     (if a = NaN \<or> b = NaN then NaN
      else if is_infinite a
      then (if is_infinite b then NaN else signed_infinity (is_negative a \<noteq> is_negative b))
      else if is_infinite b then to_number (is_negative a \<noteq> is_negative b) 0
      else if is_zero b
      then (if is_zero a then NaN else signed_infinity (is_negative a \<noteq> is_negative b))
      else to_number (is_negative a \<noteq> is_negative b) (magnitude a / magnitude b))"

text \<open>
  \<^verbatim>\<open>Math.round(x)\<close>: the integer nearest to \<open>x\<close>, the larger one when two are
  equally near; the result is the negative zero for \<open>x\<close> from \<open>-1/2\<close> up to the negative
  zero; an infinity and NaN are returned as they are. The result is computed from the
  double \<open>x\<close> without any rounding in between.
\<close>

fun Math_round :: "number \<Rightarrow> number" where
  "Math_round (Num a) =
     (if a < 0 \<and> - (1 / 2) \<le> a then NegZero else Num (of_int \<lfloor>a + 1 / 2\<rfloor>))"
| "Math_round a = a"

subsection \<open>Strings\<close>

text \<open>\<^verbatim>\<open>s.split(sep)\<close> for a separator of one code unit.\<close>

fun split_on :: "char \<Rightarrow> string \<Rightarrow> string list" where
  "split_on sep [] = [[]]"
| "split_on sep (c # cs) =
     (if c = sep then [] # split_on sep cs
      else (case split_on sep cs of
              [] \<Rightarrow> [[c]]
            | w # ws \<Rightarrow> (c # w) # ws))"

text \<open>
  The value of a code unit as a digit of a base up to 16, if it is one: \<^verbatim>\<open>0\<close> to
  \<^verbatim>\<open>9\<close>, then \<^verbatim>\<open>a\<close> to \<^verbatim>\<open>f\<close> in either case.
\<close>

definition digit_in_base :: "int \<Rightarrow> char \<Rightarrow> int option" where
  "digit_in_base base c =
     (let n = (of_char c :: int);
          v = (if 48 \<le> n \<and> n \<le> 57 then Some (n - 48)
               else if 97 \<le> n \<and> n \<le> 102 then Some (n - 87)
               else if 65 \<le> n \<and> n \<le> 70 then Some (n - 55)
               else None)
      in case v of
           None \<Rightarrow> None
         | Some d \<Rightarrow> if d < base then Some d else None)"

definition is_digit :: "char \<Rightarrow> bool" where
  "is_digit c = (digit_in_base 10 c \<noteq> None)"

text \<open>The value of a string of digits of a base, most significant digit first.\<close>

definition digits_value :: "int \<Rightarrow> string \<Rightarrow> int" where
  "digits_value base s =
     foldl (\<lambda>acc c. base * acc + (case digit_in_base base c of Some d \<Rightarrow> d | None \<Rightarrow> 0)) 0 s"

definition decimal_value :: "string \<Rightarrow> int" where
  "decimal_value s = digits_value 10 s"

definition pow10 :: "int \<Rightarrow> rat" where
  "pow10 k = (if 0 \<le> k then 10 ^ nat k else 1 / 10 ^ nat (- k))"

text \<open>
  White space and line terminators among the code units below 256: tab, line feed,
  vertical tab, form feed, carriage return, space and the no-break space.
\<close>

definition is_StrWhiteSpaceChar :: "char \<Rightarrow> bool" where
  "is_StrWhiteSpaceChar c = ((of_char c :: int) \<in> {9, 10, 11, 12, 13, 32, 160})"

definition trim_StrWhiteSpace :: "string \<Rightarrow> string" where
  "trim_StrWhiteSpace s =
     rev (dropWhile is_StrWhiteSpaceChar (rev (dropWhile is_StrWhiteSpaceChar s)))"

text \<open>
  The exponent part that ends a decimal literal, if it is well formed: nothing, or
  \<^verbatim>\<open>e\<close> or \<^verbatim>\<open>E\<close>, an optional sign and at least one digit.
\<close>

definition ExponentPart :: "string \<Rightarrow> int option" where
  "ExponentPart s =
     (let digits = (\<lambda>ds. if ds \<noteq> [] \<and> list_all is_digit ds
                          then Some (decimal_value ds) else None)
      in case s of
           [] \<Rightarrow> Some 0
         | c # t \<Rightarrow>
             if c = CHR ''e'' \<or> c = CHR ''E''
             then (case t of
                     [] \<Rightarrow> None
                   | d # u \<Rightarrow>
                       if d = CHR ''+'' then digits u
                       else if d = CHR ''-'' then map_option uminus (digits u)
                       else digits t)
             else None)"

text \<open>
  An unsigned decimal literal, with the sign that stood before it: \<^verbatim>\<open>Infinity\<close>, or
  digits with an optional point and an optional exponent, at least one digit before or
  after the point. Anything else is NaN.
\<close>

definition StrUnsignedDecimalLiteral :: "bool \<Rightarrow> string \<Rightarrow> number" where
  "StrUnsignedDecimalLiteral negative s =
     (if s = ''Infinity'' then signed_infinity negative
      else (let int_part = takeWhile is_digit s;
                rest = dropWhile is_digit s;
                has_point = (case rest of [] \<Rightarrow> False | c # t \<Rightarrow> c = CHR ''.'');
                fraction = (if has_point then takeWhile is_digit (tl rest) else []);
                exponent = (if has_point then dropWhile is_digit (tl rest) else rest)
            in if int_part = [] \<and> fraction = [] then NaN
               else (case ExponentPart exponent of
                       None \<Rightarrow> NaN
                     | Some e \<Rightarrow>
                         to_number negative
                           (of_int (decimal_value (int_part @ fraction))
                              * pow10 (e - int (length fraction))))))"

text \<open>The base and the digits of a literal that starts with a radix prefix.\<close>

definition radix_prefix :: "string \<Rightarrow> (int \<times> string) option" where
  "radix_prefix s =
     (case s of
        c0 # c1 # ds \<Rightarrow>
          if c0 \<noteq> CHR ''0'' then None
          else if c1 = CHR ''x'' \<or> c1 = CHR ''X'' then Some (16, ds)
          else if c1 = CHR ''o'' \<or> c1 = CHR ''O'' then Some (8, ds)
          else if c1 = CHR ''b'' \<or> c1 = CHR ''B'' then Some (2, ds)
          else None
      | _ \<Rightarrow> None)"

text \<open>
  \<^verbatim>\<open>Number(s)\<close> on a string: white space is dropped at both ends; the empty string is
  the positive zero; a literal with a radix prefix has no sign and at least one digit;
  a decimal literal may have a sign. The value is rounded to the nearest double, as the
  engines do for a literal of any length. A string of any other form is NaN.
\<close>

definition Number :: "string \<Rightarrow> number" where
  "Number s =
     (let t = trim_StrWhiteSpace s
      in case t of
           [] \<Rightarrow> Num 0
         | c # u \<Rightarrow>
             (case radix_prefix t of
                Some (base, ds) \<Rightarrow>
                  if ds \<noteq> [] \<and> list_all (\<lambda>d. digit_in_base base d \<noteq> None) ds
                  then to_number False (of_int (digits_value base ds))
                  else NaN
              | None \<Rightarrow>
                  if c = CHR ''+'' then StrUnsignedDecimalLiteral False u
                  else if c = CHR ''-'' then StrUnsignedDecimalLiteral True u
                  else StrUnsignedDecimalLiteral False t))"

text \<open>
  An element of an array of numbers that is read by a destructuring pattern. A missing
  element is \<^verbatim>\<open>undefined\<close>, which \<^verbatim>\<open>>=\<close>, \<^verbatim>\<open>*\<close> and \<^verbatim>\<open>/\<close> convert to NaN.
\<close>

definition element :: "number list \<Rightarrow> nat \<Rightarrow> number" where
  "element xs i = (if i < length xs then xs ! i else NaN)"

subsection \<open>The dimensions of the placeholder\<close>

text \<open>\<^verbatim>\<open>const [widthRatio, heightRatio] = aspectRatio.split(':').map(Number)\<close>\<close>

definition parseAspectRatio :: "string \<Rightarrow> number \<times> number" where
  "parseAspectRatio aspectRatio =
     (let ratios = map Number (split_on CHR '':'' aspectRatio)
      in (element ratios 0, element ratios 1))"

definition MAX_DIMENSION :: number where
  "MAX_DIMENSION = Num 512"

text \<open>The branch on the two ratios; the result is the pair (width, height).\<close>

definition dimensions :: "number \<Rightarrow> number \<Rightarrow> number \<times> number" where
  "dimensions widthRatio heightRatio =
     (if js_ge widthRatio heightRatio
      then (MAX_DIMENSION, Math_round (js_div (js_mul MAX_DIMENSION heightRatio) widthRatio))
      else (Math_round (js_div (js_mul MAX_DIMENSION widthRatio) heightRatio), MAX_DIMENSION))"

definition placeholderDimensions :: "string \<Rightarrow> number \<times> number" where
  "placeholderDimensions aspectRatio =
     (case parseAspectRatio aspectRatio of
        (widthRatio, heightRatio) \<Rightarrow> dimensions widthRatio heightRatio)"

subsection \<open>Descriptors\<close>

text \<open>
  The descriptor of the ratio of \<open>w\<close> to \<open>h\<close>, as the choices of the select element are
  written: the decimal numeral of \<open>w\<close>, a colon, the decimal numeral of \<open>h\<close>.
\<close>

fun decimal :: "nat \<Rightarrow> string" where
  "decimal n =
     (if n < 10 then [char_of (48 + n)]
      else decimal (n div 10) @ [char_of (48 + n mod 10)])"

definition aspect_ratio_descriptor :: "nat \<Rightarrow> nat \<Rightarrow> string" where
  "aspect_ratio_descriptor w h = decimal w @ '':'' @ decimal h"

subsection \<open>The page\<close>

text \<open>
  What reading the \<^verbatim>\<open>src\<close> property of an image returns after a string was assigned to
  it: the browser parses the string as a URL and writes the URL out again. The result is
  kept as the string that was assigned; the theory does not compute it.
\<close>

datatype url = Serialized string

text \<open>
  What the image display area can hold: the placeholder, the loader that
  \<^verbatim>\<open>setLoading(true)\<close> writes, an image with the string assigned to its \<^verbatim>\<open>src\<close>, and
  the download link, of which only the two attributes that depend on the image are kept.
\<close>

datatype node =
    PlaceholderDiv
  | Loader
  | Img (src: string) (alt: string)
  | DownloadLink (href: url) (download: string)

text \<open>The DOM elements that the script holds, each with the properties it reads or writes.\<close>

record page =
  promptInput_value :: string
  aspectRatioSelect_value :: string
  generateBtn_disabled :: bool
  generateBtn_innerHTML :: string
  errorMessage_textContent :: string
  errorMessage_display :: string
  imageDisplayArea_children :: "node list"
  imageDisplayArea_classList :: "string set"

definition showError :: "string \<Rightarrow> page \<Rightarrow> page" where
  "showError message p =
     (if message \<noteq> []
      then p\<lparr>errorMessage_textContent := message, errorMessage_display := ''block''\<rparr>
      else p\<lparr>errorMessage_textContent := [], errorMessage_display := ''none''\<rparr>)"

definition clearOutput :: "page \<Rightarrow> page" where
  "clearOutput p =
     p\<lparr>imageDisplayArea_children := [PlaceholderDiv],
       imageDisplayArea_classList := imageDisplayArea_classList p - {''has-image''}\<rparr>"

definition setLoading :: "bool \<Rightarrow> page \<Rightarrow> page" where
  \<open>setLoading isLoading p =
     (if isLoading
      then (let p1 = clearOutput p
            in p1\<lparr>imageDisplayArea_children := [Loader],
                  imageDisplayArea_classList := insert ''loading'' (imageDisplayArea_classList p1),
                  generateBtn_disabled := True,
                  generateBtn_innerHTML :=
                    ''<i class="fa-solid fa-hourglass-half"></i> Generating...''\<rparr>)
      else (let p1 = (if ''loading'' \<in> imageDisplayArea_classList p
                         \<and> ''has-image'' \<notin> imageDisplayArea_classList p
                      then clearOutput p else p)
            in p1\<lparr>imageDisplayArea_classList := imageDisplayArea_classList p1 - {''loading''},
                  generateBtn_disabled := False,
                  generateBtn_innerHTML :=
                    ''<i class="fa-solid fa-wand-magic-sparkles"></i> Generate''\<rparr>))\<close>

text \<open>
  The class \<^verbatim>\<open>[^a-z0-9]\<close> under the flags \<^verbatim>\<open>gi\<close>: without the flag \<^verbatim>\<open>u\<close>, ignoring
  case adds the capital letters A to Z to the letters and digits and nothing else, so
  the class matches every code unit that is no letter of A to Z or a to z and no digit.
\<close>

definition is_alphanumeric :: "char \<Rightarrow> bool" where
  "is_alphanumeric c =
     (let n = (of_char c :: nat)
      in (97 \<le> n \<and> n \<le> 122) \<or> (65 \<le> n \<and> n \<le> 90) \<or> (48 \<le> n \<and> n \<le> 57))"

text \<open>
  \<^verbatim>\<open>altText.substring(0, 30).replace(/[^a-z0-9]/gi, '_') || 'genbanana-art'\<close>: the
  empty string is the only string that \<^verbatim>\<open>||\<close> replaces.
\<close>

definition safeFilename :: "string \<Rightarrow> string" where
  "safeFilename altText =
     (let replaced = map (\<lambda>c. if is_alphanumeric c then c else CHR ''_'') (take 30 altText)
      in if replaced \<noteq> [] then replaced else ''genbanana-art'')"

definition displayImage :: "string \<Rightarrow> string \<Rightarrow> string \<Rightarrow> page \<Rightarrow> page" where
  "displayImage base64Data mimeType altText p =
     (let img_src = ''data:'' @ mimeType @ '';base64,'' @ base64Data
      in p\<lparr>imageDisplayArea_children :=
             [Img img_src altText,
              DownloadLink (Serialized img_src) (safeFilename altText @ ''.png'')],
           imageDisplayArea_classList := insert ''has-image'' (imageDisplayArea_classList p)\<rparr>)"

subsection \<open>The environment\<close>

text \<open>A thrown \<^verbatim>\<open>Error\<close>, with its \<^verbatim>\<open>message\<close>.\<close>

datatype js_error = Error (message: string)

text \<open>
  The request that \<^verbatim>\<open>generateImage\<close> builds. The data of the inline part is what
  \<^verbatim>\<open>generatePlaceholderImage\<close> returns, which is \<^verbatim>\<open>undefined\<close> (\<open>None\<close>) when the
  data URL of the canvas has no comma.
\<close>

datatype request_part =
    TextPart string
  | InlineDataPart string "string option"

datatype modality = IMAGE | TEXT

record request =
  request_model :: string
  request_contents :: "request_part list"
  request_responseModalities :: "modality list"

text \<open>
  Modelled from the spec: the types of the response, which the library
  \<^verbatim>\<open>@google/genai\<close> declares. The capability returns zero or more candidates, each with
  an ordered list of content parts; a part may carry inline data (a mime type and a
  payload) or text. The script tests \<^verbatim>\<open>response.candidates\<close> before it reads its
  length, so the list of candidates may be absent (\<open>None\<close>).
\<close>

record blob =
  blob_mimeType :: string
  blob_data :: string

record part =
  part_text :: "string option"
  part_inlineData :: "blob option"

record candidate =
  content_parts :: "part list"

record response =
  candidates :: "candidate list option"

text \<open>
  What the script does not define: whether \<^verbatim>\<open>canvas.getContext('2d')\<close> gives a context,
  the data URL of a canvas of a given width and height after it is filled, and the
  outcome of awaiting \<^verbatim>\<open>ai.models.generateContent\<close>, which is a thrown error (\<open>Inl\<close>) or
  a response (\<open>Inr\<close>). A call that never settles is not part of this model.
\<close>

record env =
  getContext_2d :: bool
  toDataURL :: "number \<Rightarrow> number \<Rightarrow> string"
  generateContent :: "request \<Rightarrow> js_error + response"

subsection \<open>The placeholder image\<close>

text \<open>\<^verbatim>\<open>xs[i]\<close> on an array of strings: \<^verbatim>\<open>undefined\<close> (\<open>None\<close>) out of range.\<close>

definition index :: "string list \<Rightarrow> nat \<Rightarrow> string option" where
  "index xs i = (if i < length xs then Some (xs ! i) else None)"

definition generatePlaceholderImage :: "env \<Rightarrow> string \<Rightarrow> js_error + string option" where
  "generatePlaceholderImage e aspectRatio =
     (if \<not> getContext_2d e then Inl (Error ''Could not get canvas context'')
      else (case placeholderDimensions aspectRatio of
              (width, height) \<Rightarrow>
                (let dataUrl = toDataURL e width height
                 in Inr (index (split_on CHR '','' dataUrl) 1))))"

subsection \<open>The generation workflow\<close>

text \<open>
  The loop over the parts of the first candidate, with its \<^verbatim>\<open>break\<close>; the boolean is
  \<^verbatim>\<open>hasImageOutput\<close>.
\<close>

fun scan_parts :: "part list \<Rightarrow> string \<Rightarrow> page \<Rightarrow> page \<times> bool" where
  "scan_parts [] promptText p = (p, False)"
| "scan_parts (x # xs) promptText p =
     (case part_inlineData x of
        Some inlineData \<Rightarrow>
          (displayImage (blob_data inlineData) (blob_mimeType inlineData) promptText p, True)
      | None \<Rightarrow> scan_parts xs promptText p)"

text \<open>The body of the \<^verbatim>\<open>try\<close> block after the response has arrived.\<close>

definition handle_response :: "response \<Rightarrow> string \<Rightarrow> page \<Rightarrow> page" where
  "handle_response r promptText p =
     (case (case candidates r of
              Some (c # cs) \<Rightarrow> scan_parts (content_parts c) promptText p
            | _ \<Rightarrow> (p, False)) of
        (p1, hasImageOutput) \<Rightarrow>
          (if \<not> hasImageOutput
           then showError
                  ''The model did not return an image. Please try a different prompt.'' p1
           else p1))"

text \<open>The \<^verbatim>\<open>catch\<close> block. (The script also logs the error to the console.)\<close>

definition catch_block :: "js_error \<Rightarrow> page \<Rightarrow> page" where
  "catch_block err p = showError (''An error occurred: '' @ message err) p"

text \<open>The \<^verbatim>\<open>finally\<close> block.\<close>

definition finally_block :: "page \<Rightarrow> page" where
  "finally_block p = setLoading False p"

text \<open>
  \<^verbatim>\<open>generateImage\<close> is asynchronous: it runs up to the \<^verbatim>\<open>await\<close>, the page is then
  as it left it while the call is in flight, and it runs on when the call settles. The
  first half either returns, or awaits the call with the page, the request and the
  prompt that it read at the start.
\<close>

datatype suspended = Returned page | Awaiting page request string

definition build_request :: "string \<Rightarrow> string option \<Rightarrow> request" where
  "build_request promptText placeholderBase64 =
     (let fullPrompt = promptText @ ''. Do not change the input aspect ratio.''
      in \<lparr>request_model = ''gemini-2.5-flash-image-preview'',
          request_contents = [TextPart fullPrompt,
                              InlineDataPart ''image/png'' placeholderBase64],
          request_responseModalities = [IMAGE, TEXT]\<rparr>)"

definition generateImage_start :: "env \<Rightarrow> page \<Rightarrow> suspended" where
  "generateImage_start e p =
     (let promptText = promptInput_value p
      in if promptText = [] then Returned (showError ''Please enter a prompt.'' p)
         else (let aspectRatio = aspectRatioSelect_value p;
                   p1 = showError [] (setLoading True p)
               in (case generatePlaceholderImage e aspectRatio of
                     Inl err \<Rightarrow> Returned (finally_block (catch_block err p1))
                   | Inr placeholderBase64 \<Rightarrow>
                       Awaiting p1 (build_request promptText placeholderBase64) promptText)))"

definition generateImage_resume :: "string \<Rightarrow> page \<Rightarrow> js_error + response \<Rightarrow> page" where
  "generateImage_resume promptText p outcome =
     finally_block
       (case outcome of
          Inl err \<Rightarrow> catch_block err p
        | Inr r \<Rightarrow> handle_response r promptText p)"

text \<open>
  A run that nothing interrupts: no other event happens between the moment it awaits its
  call and the moment the call settles. The result is the page at the end and the
  requests sent to the capability, in order.
\<close>

definition generateImage :: "env \<Rightarrow> page \<Rightarrow> page \<times> request list" where
  "generateImage e p =
     (case generateImage_start e p of
        Returned p1 \<Rightarrow> (p1, [])
      | Awaiting p1 req promptText \<Rightarrow>
          (generateImage_resume promptText p1 (generateContent e req), [req]))"

subsection \<open>Events\<close>

text \<open>
  The page is shared by all runs. The state of the application is the page, the calls
  that are in flight, each with the prompt that its run read at the start, and the
  requests sent so far.
\<close>

record app =
  app_page :: page
  in_flight :: "(request \<times> string) list"
  sent :: "request list"

text \<open>
  What can happen: a click on the button, the Enter key without Shift in the prompt box,
  the user typing a prompt or choosing a ratio, and the settling of one of the calls in
  flight, given by its position.
\<close>

datatype event = Click | EnterKey | TypePrompt string | ChooseRatio string | Settle nat

text \<open>A listener calls \<^verbatim>\<open>generateImage\<close>, which runs up to its \<^verbatim>\<open>await\<close>.\<close>

definition trigger :: "env \<Rightarrow> app \<Rightarrow> app" where
  "trigger e a =
     (case generateImage_start e (app_page a) of
        Returned p1 \<Rightarrow> a\<lparr>app_page := p1\<rparr>
      | Awaiting p1 req promptText \<Rightarrow>
          a\<lparr>app_page := p1,
            in_flight := in_flight a @ [(req, promptText)],
            sent := sent a @ [req]\<rparr>)"

text \<open>
  The browser delivers no click to a disabled button; the handler of the Enter key runs
  whatever the state of the button. When a call settles, the rest of its run continues on
  the page as it is at that moment.
\<close>

definition step :: "env \<Rightarrow> event \<Rightarrow> app \<Rightarrow> app" where
  "step e ev a =
     (case ev of
        Click \<Rightarrow> if generateBtn_disabled (app_page a) then a else trigger e a
      | EnterKey \<Rightarrow> trigger e a
      | TypePrompt s \<Rightarrow> a\<lparr>app_page := (app_page a)\<lparr>promptInput_value := s\<rparr>\<rparr>
      | ChooseRatio s \<Rightarrow> a\<lparr>app_page := (app_page a)\<lparr>aspectRatioSelect_value := s\<rparr>\<rparr>
      | Settle i \<Rightarrow>
          if i < length (in_flight a)
          then (case in_flight a ! i of
                  (req, promptText) \<Rightarrow>
                    a\<lparr>app_page :=
                        generateImage_resume promptText (app_page a) (generateContent e req),
                      in_flight := take i (in_flight a) @ drop (Suc i) (in_flight a)\<rparr>)
          else a)"

definition run_events :: "env \<Rightarrow> event list \<Rightarrow> app \<Rightarrow> app" where
  "run_events e evs a = foldl (\<lambda>b ev. step e ev b) a evs"

text \<open>The application with no call in flight.\<close>

definition idle :: "page \<Rightarrow> app" where
  "idle p = \<lparr>app_page = p, in_flight = [], sent = []\<rparr>"

subsection \<open>Example inputs\<close>

text \<open>
  A page on which an earlier attempt has left an error message, a response whose first
  candidate has a text part before two image parts, a response with text only in its
  first candidate, and three environments: one where the call succeeds, one where it
  throws, and one where the canvas gives no context.
\<close>

definition example_page :: page where
  "example_page =
     \<lparr>promptInput_value = ''A yellow camaro!!'',
      aspectRatioSelect_value = ''16:9'',
      generateBtn_disabled = False,
      generateBtn_innerHTML = ''Generate'',
      errorMessage_textContent = ''An error occurred: Failed to fetch'',
      errorMessage_display = ''block'',
      imageDisplayArea_children = [PlaceholderDiv],
      imageDisplayArea_classList = {}\<rparr>"

definition text_part :: "string \<Rightarrow> part" where
  "text_part s = \<lparr>part_text = Some s, part_inlineData = None\<rparr>"

definition image_part :: "string \<Rightarrow> string \<Rightarrow> part" where
  "image_part m d = \<lparr>part_text = None, part_inlineData = Some \<lparr>blob_mimeType = m, blob_data = d\<rparr>\<rparr>"

definition example_response :: response where
  "example_response =
     \<lparr>candidates = Some
        [\<lparr>content_parts = [text_part ''Here is your image.'',
                            image_part ''image/png'' ''AAAA'',
                            image_part ''image/jpeg'' ''BBBB'']\<rparr>,
         \<lparr>content_parts = [image_part ''image/webp'' ''CCCC'']\<rparr>]\<rparr>"

definition text_only_response :: response where
  "text_only_response =
     \<lparr>candidates = Some
        [\<lparr>content_parts = [text_part ''I cannot draw that.'']\<rparr>,
         \<lparr>content_parts = [image_part ''image/webp'' ''CCCC'']\<rparr>]\<rparr>"

definition example_env :: env where
  "example_env =
     \<lparr>getContext_2d = True,
      toDataURL = (\<lambda>width height. ''data:image/png;base64,iVBORw0KGgo=''),
      generateContent = (\<lambda>req. Inr example_response)\<rparr>"

definition failing_env :: env where
  "failing_env = example_env\<lparr>generateContent := (\<lambda>req. Inl (Error ''Failed to fetch''))\<rparr>"

definition no_canvas_env :: env where
  "no_canvas_env = example_env\<lparr>getContext_2d := False\<rparr>"

section \<open>Properties\<close>

subsection \<open>What each function leaves unchanged, and what it sets\<close>

lemma showError_frame [simp]:
  "generateBtn_disabled (showError m p) = generateBtn_disabled p"
  "imageDisplayArea_classList (showError m p) = imageDisplayArea_classList p"
  "imageDisplayArea_children (showError m p) = imageDisplayArea_children p"
  by (simp_all add: showError_def)

lemma showError_shown:
  "m \<noteq> [] \<Longrightarrow> errorMessage_textContent (showError m p) = m"
  "m \<noteq> [] \<Longrightarrow> errorMessage_display (showError m p) = ''block''"
  by (simp_all add: showError_def)

lemma showError_cleared:
  "errorMessage_textContent (showError [] p) = []"
  "errorMessage_display (showError [] p) = ''none''"
  by (simp_all add: showError_def)

lemma setLoading_frame [simp]:
  "errorMessage_textContent (setLoading b p) = errorMessage_textContent p"
  "errorMessage_display (setLoading b p) = errorMessage_display p"
  by (simp_all add: setLoading_def clearOutput_def Let_def)

lemma setLoading_True_busy:
  "generateBtn_disabled (setLoading True p)"
  "''loading'' \<in> imageDisplayArea_classList (setLoading True p)"
  by (simp_all add: setLoading_def clearOutput_def Let_def)

lemma finally_block_idle:
  "\<not> generateBtn_disabled (finally_block p)"
  "''loading'' \<notin> imageDisplayArea_classList (finally_block p)"
  by (simp_all add: finally_block_def setLoading_def clearOutput_def Let_def)

lemma finally_block_frame [simp]:
  "errorMessage_textContent (finally_block p) = errorMessage_textContent p"
  "errorMessage_display (finally_block p) = errorMessage_display p"
  by (simp_all add: finally_block_def)

lemma displayImage_frame [simp]:
  "errorMessage_textContent (displayImage d m t p) = errorMessage_textContent p"
  "errorMessage_display (displayImage d m t p) = errorMessage_display p"
  by (simp_all add: displayImage_def Let_def)

lemma finally_block_keeps_image:
  "imageDisplayArea_children (finally_block (displayImage d m t p)) =
     [Img (''data:'' @ m @ '';base64,'' @ d) t,
      DownloadLink (Serialized (''data:'' @ m @ '';base64,'' @ d)) (safeFilename t @ ''.png'')]"
  by (simp add: finally_block_def setLoading_def displayImage_def Let_def)

subsection \<open>The two halves of the workflow\<close>

lemma generatePlaceholderImage_cases:
  "generatePlaceholderImage e a =
     (if getContext_2d e
      then Inr (index (split_on CHR '','' (toDataURL e (fst (placeholderDimensions a))
                                                     (snd (placeholderDimensions a)))) 1)
      else Inl (Error ''Could not get canvas context''))"
  by (simp add: generatePlaceholderImage_def split: prod.splits)

lemma generateImage_start_nonempty:
  assumes "promptInput_value p \<noteq> []"
  shows "generateImage_start e p =
     (case generatePlaceholderImage e (aspectRatioSelect_value p) of
        Inl err \<Rightarrow> Returned (finally_block (catch_block err (showError [] (setLoading True p))))
      | Inr b \<Rightarrow> Awaiting (showError [] (setLoading True p))
                   (build_request (promptInput_value p) b) (promptInput_value p))"
  using assms by (simp add: generateImage_start_def Let_def)

lemma generateImage_resume_idle:
  "\<not> generateBtn_disabled (generateImage_resume t p outcome)"
  "''loading'' \<notin> imageDisplayArea_classList (generateImage_resume t p outcome)"
  by (simp_all add: generateImage_resume_def finally_block_idle)

lemma scan_parts_skip:
  assumes "\<forall>y\<in>set pre. part_inlineData y = None"
  shows "scan_parts (pre @ xs) t p = scan_parts xs t p"
  using assms by (induction pre) simp_all

lemma scan_parts_no_image:
  assumes "\<forall>y\<in>set xs. part_inlineData y = None"
  shows "scan_parts xs t p = (p, False)"
  using assms by (induction xs) simp_all

lemma handle_response_no_image:
  assumes "candidates r = None \<or> candidates r = Some []
           \<or> (\<exists>c cs. candidates r = Some (c # cs)
                 \<and> (\<forall>y\<in>set (content_parts c). part_inlineData y = None))"
  shows "handle_response r t p =
           showError ''The model did not return an image. Please try a different prompt.'' p"
  using assms by (auto simp add: handle_response_def scan_parts_no_image)

lemma handle_response_image:
  assumes "candidates r = Some (c # cs)"
    and "content_parts c = pre @ x # post"
    and "\<forall>y\<in>set pre. part_inlineData y = None"
    and "part_inlineData x = Some b"
  shows "handle_response r t p = displayImage (blob_data b) (blob_mimeType b) t p"
  using assms by (simp add: handle_response_def scan_parts_skip)

lemma safeFilename_nonempty:
  assumes "altText \<noteq> []"
  shows "safeFilename altText =
     map (\<lambda>c. if is_alphanumeric c then c else CHR ''_'') (take 30 altText)"
  using assms by (simp add: safeFilename_def Let_def)

subsection \<open>Rounding to a double\<close>

text \<open>
  The binade of a value below a power of two, and the grid of the doubles around a value:
  the integer multiples of its unit in the last place. Rounding keeps a value on the side
  of a grid point where it is, fixes the grid points, and does not reach a grid point
  that is more than half a unit away.
\<close>

lemma log2_floor_le: "0 < n \<Longrightarrow> 2 ^ log2_floor n \<le> n"
proof (induction n rule: log2_floor.induct)
  case (1 n)
  show ?case
  proof (cases "n < 2")
    case True
    with "1.prems" show ?thesis by simp
  next
    case False
    then have "0 < n div 2" by simp
    with "1.IH" False have "2 ^ log2_floor (n div 2) \<le> n div 2" by simp
    then have "2 * 2 ^ log2_floor (n div 2) \<le> 2 * (n div 2)" by simp
    also have "\<dots> \<le> n" by simp
    finally show ?thesis using False by (subst log2_floor.simps) simp
  qed
qed

lemma binade_less:
  assumes "0 < x" and "x < 2 ^ K" and "0 < K"
  shows "binade x < int K"
proof (cases "1 \<le> x")
  case True
  let ?n = "\<lfloor>x\<rfloor>"
  have n: "0 < ?n" using True by simp
  have "rat_of_int (2 ^ log2_floor ?n) \<le> rat_of_int ?n"
    using log2_floor_le [OF n] by (simp only: of_int_le_iff)
  also have "\<dots> \<le> x" by simp
  also have "\<dots> < 2 ^ K" by (rule assms(2))
  finally have "(2::rat) ^ log2_floor ?n < 2 ^ K" by simp
  then have "log2_floor ?n < K" by simp
  then show ?thesis using True by (simp add: binade_def)
next
  case False
  then have "binade x \<le> 0" by (simp add: binade_def Let_def)
  with assms(3) show ?thesis by simp
qed

lemma pow2_pos: "0 < pow2 k"
  by (simp add: pow2_def)

lemma pow2_add: "pow2 (a + b) = pow2 a * pow2 b"
proof -
  have "pow2 k = power_int 2 k" for k
    by (simp add: pow2_def power_int_def field_simps)
  then show ?thesis by (simp add: power_int_add)
qed

lemma pow2_nat: "pow2 (int n) = 2 ^ n"
  by (simp add: pow2_def)

lemma pow2_multiple:
  assumes "j \<le> c"
  shows "pow2 c = of_int (2 ^ nat (c - j)) * pow2 j"
proof -
  have "pow2 c = pow2 (int (nat (c - j)) + j)" using assms by simp
  also have "\<dots> = 2 ^ nat (c - j) * pow2 j" by (simp only: pow2_add pow2_nat)
  finally show ?thesis by simp
qed

lemma pow2_mono: "a \<le> b \<Longrightarrow> pow2 a \<le> pow2 b"
  using pow2_multiple [of a b] pow2_pos [of a]
  by (simp add: mult_le_cancel_right1 one_le_power)

lemma rhe_ge: "of_int N \<le> y \<Longrightarrow> N \<le> round_half_even y"
proof -
  assume "of_int N \<le> y"
  then have "N \<le> \<lfloor>y\<rfloor>" by (simp add: le_floor_iff)
  then show ?thesis by (simp add: round_half_even_def Let_def)
qed

lemma rhe_of_int: "round_half_even (of_int N) = N"
  by (simp add: round_half_even_def)

lemma rhe_less:
  assumes "y < of_int N - 1 / 2"
  shows "round_half_even y < N"
proof -
  have "y < of_int N" using assms by simp
  then have f: "\<lfloor>y\<rfloor> < N" by (simp add: floor_less_iff)
  show ?thesis
  proof (cases "\<lfloor>y\<rfloor> = N - 1")
    case True
    then have "y - of_int \<lfloor>y\<rfloor> < 1 / 2" using assms by simp
    then show ?thesis using True by (simp add: round_half_even_def Let_def)
  next
    case False
    with f have "\<lfloor>y\<rfloor> + 1 < N" by simp
    then show ?thesis by (simp add: round_half_even_def Let_def)
  qed
qed

lemma rhe_le:
  assumes "y \<le> of_int N"
  shows "round_half_even y \<le> N"
proof (cases "y = of_int N")
  case True
  then show ?thesis by (simp add: rhe_of_int)
next
  case False
  with assms have "y < of_int N" by simp
  then have "\<lfloor>y\<rfloor> < N" by (simp add: floor_less_iff)
  then show ?thesis by (simp add: round_half_even_def Let_def)
qed

lemma ulp_pos: "0 < ulp x"
  by (simp add: ulp_def pow2_pos)

lemma grid_multiple:
  assumes "max (binade x) (- 1022) - 52 \<le> c"
  shows "\<exists>N :: int. of_int M * pow2 c = of_int N * ulp x"
proof -
  have "of_int M * pow2 c = of_int (M * 2 ^ nat (c - (max (binade x) (- 1022) - 52))) * ulp x"
    unfolding ulp_def using pow2_multiple [OF assms] by simp
  then show ?thesis by blast
qed

lemma nearest_ge:
  assumes "m = of_int N * ulp x" and "m \<le> x"
  shows "m \<le> nearest x"
proof -
  have "of_int N \<le> x / ulp x"
    using assms ulp_pos [of x] by (simp add: pos_le_divide_eq)
  then have "N \<le> round_half_even (x / ulp x)" by (rule rhe_ge)
  then have "rat_of_int N \<le> of_int (round_half_even (x / ulp x))" by simp
  then show ?thesis
    using ulp_pos [of x] by (simp add: nearest_def assms(1))
qed

lemma nearest_le:
  assumes "m = of_int N * ulp x" and "x \<le> m"
  shows "nearest x \<le> m"
proof -
  have "x / ulp x \<le> of_int N"
    using assms ulp_pos [of x] by (simp add: pos_divide_le_eq)
  then have "round_half_even (x / ulp x) \<le> N" by (rule rhe_le)
  then have "rat_of_int (round_half_even (x / ulp x)) \<le> of_int N" by simp
  then show ?thesis
    using ulp_pos [of x] by (simp add: nearest_def assms(1))
qed

lemma nearest_less:
  assumes "m = of_int N * ulp x" and "x < m - ulp x / 2"
  shows "nearest x < m"
proof -
  have "x < (of_int N - 1 / 2) * ulp x"
    using assms by (simp add: algebra_simps)
  then have "x / ulp x < of_int N - 1 / 2"
    using ulp_pos [of x] by (simp only: pos_divide_less_eq)
  then have "round_half_even (x / ulp x) < N" by (rule rhe_less)
  then have "rat_of_int (round_half_even (x / ulp x)) < of_int N" by simp
  then show ?thesis
    using ulp_pos [of x] by (simp add: nearest_def assms(1))
qed

lemma nearest_eq:
  assumes "x = of_int N * ulp x"
  shows "nearest x = x"
  using nearest_ge [OF assms] nearest_le [OF assms] by simp

lemma round_magnitude_grid:
  assumes "0 < x" and "x = of_int M * pow2 c"
    and "max (binade x) (- 1022) - 52 \<le> c" and "x < 2 ^ 1024"
  shows "round_magnitude x = Some x"
proof -
  obtain N :: int where "of_int M * pow2 c = of_int N * ulp x"
    using grid_multiple [OF assms(3)] by blast
  with assms(2) have "x = of_int N * ulp x" by simp
  then have "nearest x = x" by (rule nearest_eq)
  with assms(1,4) show ?thesis by (simp add: round_magnitude_def)
qed

lemma to_number_Some:
  assumes "round_magnitude x = Some r" and "0 \<le> r"
  shows "to_number False x = Num r"
  using assms by (simp add: to_number_def)

lemma to_number_nat:
  assumes "n < 2 ^ 53"
  shows "to_number False (of_nat n) = Num (of_nat n)"
proof (cases "n = 0")
  case True
  then show ?thesis by (simp add: to_number_def round_magnitude_def)
next
  case False
  let ?x = "rat_of_nat n"
  have pos: "0 < ?x" using False by simp
  have "?x < rat_of_nat (2 ^ 53)" using assms by (simp only: of_nat_less_iff)
  then have lt: "?x < 2 ^ 53" by simp
  have "binade ?x < int 53" by (rule binade_less [OF pos lt]) simp
  then have e: "max (binade ?x) (- 1022) - 52 \<le> 0" by simp
  have g: "?x = of_int (int n) * pow2 0" by (simp add: pow2_def)
  have "?x < 2 ^ 1024"
    using lt by (rule less_trans) simp
  then have "round_magnitude ?x = Some ?x"
    by (rule round_magnitude_grid [OF pos g e])
  then show ?thesis by (rule to_number_Some) simp
qed

lemma to_number_512:
  assumes "n < 2 ^ 53"
  shows "to_number False (512 * of_nat n) = Num (512 * of_nat n)"
proof (cases "n = 0")
  case True
  then show ?thesis by (simp add: to_number_def round_magnitude_def)
next
  case False
  let ?x = "512 * rat_of_nat n"
  have pos: "0 < ?x" using False by simp
  have "rat_of_nat n < rat_of_nat (2 ^ 53)" using assms by (simp only: of_nat_less_iff)
  then have lt: "?x < 2 ^ 62" by simp
  have "binade ?x < int 62" by (rule binade_less [OF pos lt]) simp
  then have e: "max (binade ?x) (- 1022) - 52 \<le> 9" by simp
  have g: "?x = of_int (int n) * pow2 9" by (simp add: pow2_def)
  have "?x < 2 ^ 1024"
    using lt by (rule less_trans) simp
  then have "round_magnitude ?x = Some ?x"
    by (rule round_magnitude_grid [OF pos g e])
  then show ?thesis by (rule to_number_Some) (simp add: pos less_imp_le)
qed

lemma half_integer_on_grid:
  assumes "0 < x" and "x < 2 ^ K" and "0 < K" and "K \<le> 52"
  shows "\<exists>N :: int. of_int M / 2 = of_int N * ulp x"
proof -
  have "binade x < int K" by (rule binade_less [OF assms(1,2,3)])
  with assms(4) have "max (binade x) (- 1022) - 52 \<le> - 1" by simp
  then obtain N :: int where "of_int M * pow2 (- 1) = of_int N * ulp x"
    using grid_multiple by blast
  then show ?thesis by (auto simp add: pow2_def)
qed

lemma ulp_le:
  assumes "0 < x" and "x < 2 ^ K" and "0 < K"
  shows "ulp x \<le> pow2 (int K - 53)"
proof -
  have "binade x < int K" by (rule binade_less [OF assms])
  then have "max (binade x) (- 1022) - 52 \<le> int K - 53" by simp
  then show ?thesis unfolding ulp_def by (rule pow2_mono)
qed

lemma round_magnitude_nearest:
  assumes "x \<noteq> 0" and "nearest x < 2 ^ 1024"
  shows "round_magnitude x = Some (nearest x)"
  using assms by (simp add: round_magnitude_def)

lemma nearest_nonneg:
  assumes "0 \<le> x"
  shows "0 \<le> nearest x"
  using nearest_ge [of 0 0 x] assms by simp


subsection \<open>The quotient of the two components\<close>


lemma quotient_round:
  assumes "0 < h" and "h < w" and "w < 2 ^ 44"
  shows "\<exists>r. to_number False (512 * rat_of_nat h / rat_of_nat w) = Num r \<and> 0 \<le> r
             \<and> \<lfloor>r + 1 / 2\<rfloor> = \<lfloor>512 * rat_of_nat h / rat_of_nat w + 1 / 2\<rfloor>"
proof -
  define q where "q = 512 * rat_of_nat h / rat_of_nat w"
  define k where "k = \<lfloor>q + 1 / 2\<rfloor>"
  have w: "0 < rat_of_nat w" using assms by simp
  have hw: "rat_of_nat h < rat_of_nat w" using assms by simp
  have pos: "0 < q" using assms by (simp add: q_def)
  have "q < 512" using w hw by (simp add: q_def field_simps)
  then have lt: "q < 2 ^ 9" by simp
  have lt52: "q < 2 ^ 52" using lt by (rule less_trans) simp
  have k1: "rat_of_int k \<le> q + 1 / 2"
    unfolding k_def by (rule of_int_floor_le)
  have k2: "q + 1 / 2 < rat_of_int k + 1"
    unfolding k_def by linarith
  have lo_val: "rat_of_int (2 * k - 1) / 2 = rat_of_int k - 1 / 2"
    and hi_val: "rat_of_int (2 * k + 1) / 2 = rat_of_int k + 1 / 2"
    by simp_all
  obtain N :: int where lo: "rat_of_int (2 * k - 1) / 2 = of_int N * ulp q"
    using half_integer_on_grid [OF pos lt52, of "2 * k - 1"] by auto
  have "rat_of_int (2 * k - 1) / 2 \<le> q" using k1 lo_val by linarith
  then have "rat_of_int (2 * k - 1) / 2 \<le> nearest q" by (rule nearest_ge [OF lo])
  then have l: "rat_of_int k - 1 / 2 \<le> nearest q" by (simp only: lo_val)
  obtain N' :: int where hi: "rat_of_int (2 * k + 1) / 2 = of_int N' * ulp q"
    using half_integer_on_grid [OF pos lt52, of "2 * k + 1"] by auto
  have "q * rat_of_nat w = 512 * rat_of_nat h"
    using w by (simp add: q_def)
  moreover have "q * rat_of_nat w < (rat_of_int k + 1 / 2) * rat_of_nat w"
    using k2 w by (simp only: mult_less_cancel_right_pos)
  ultimately have "1024 * rat_of_nat h < rat_of_int (2 * k + 1) * rat_of_nat w"
    by (simp add: algebra_simps)
  then have "rat_of_int (1024 * int h) < rat_of_int ((2 * k + 1) * int w)" by simp
  then have "1024 * int h < (2 * k + 1) * int w" by (simp only: of_int_less_iff)
  then have "1024 * int h + 1 \<le> (2 * k + 1) * int w" by simp
  then have "rat_of_int (1024 * int h + 1) \<le> rat_of_int ((2 * k + 1) * int w)"
    by (simp only: of_int_le_iff)
  then have "1024 * rat_of_nat h + 1 \<le> rat_of_int (2 * k + 1) * rat_of_nat w" by simp
  then have gap: "1 \<le> 2 * ((rat_of_int k + 1 / 2) * rat_of_nat w - q * rat_of_nat w)"
    using \<open>q * rat_of_nat w = 512 * rat_of_nat h\<close> by (simp add: algebra_simps)
  have "rat_of_nat w < rat_of_nat (2 ^ 44)" using assms(3) by (simp only: of_nat_less_iff)
  then have w44: "rat_of_nat w < 2 ^ 44" by simp
  have "ulp q \<le> pow2 (int 9 - 53)" by (rule ulp_le [OF pos lt]) simp
  then have ulp44: "ulp q \<le> 1 / 2 ^ 44" by (simp add: pow2_def)
  have "ulp q * rat_of_nat w \<le> 1 / 2 ^ 44 * rat_of_nat w"
    using ulp44 w by (simp only: mult_right_mono less_imp_le)
  also have "\<dots> < 1" using w44 by simp
  finally have "ulp q * rat_of_nat w < 2 * ((rat_of_int k + 1 / 2) * rat_of_nat w - q * rat_of_nat w)"
    using gap by linarith
  then have "(ulp q / 2) * rat_of_nat w < (rat_of_int k + 1 / 2 - q) * rat_of_nat w"
    by (simp add: algebra_simps)
  then have "ulp q / 2 < rat_of_int k + 1 / 2 - q"
    using w by (simp only: mult_less_cancel_right_pos)
  then have "q < rat_of_int (2 * k + 1) / 2 - ulp q / 2" using hi_val by linarith
  then have "nearest q < rat_of_int (2 * k + 1) / 2" by (rule nearest_less [OF hi])
  then have u: "nearest q < rat_of_int k + 1 / 2" by (simp only: hi_val)
  have n: "0 \<le> nearest q" using pos by (intro nearest_nonneg) simp
  have ne: "q \<noteq> 0" using pos by simp
  have "nearest q < q + 1" using u k1 by linarith
  also have "\<dots> < 2 ^ 9 + 1" using lt by simp
  also have "\<dots> < 2 ^ 1024" by simp
  finally have "round_magnitude q = Some (nearest q)"
    by (rule round_magnitude_nearest [OF ne])
  then have t: "to_number False q = Num (nearest q)" using n by (rule to_number_Some)
  have "\<lfloor>nearest q + 1 / 2\<rfloor> = k"
  proof (rule floor_unique)
    show "rat_of_int k \<le> nearest q + 1 / 2" using l by linarith
    show "nearest q + 1 / 2 < rat_of_int k + 1" using u by linarith
  qed
  with t n show ?thesis unfolding k_def q_def by blast
qed

lemma js_ge_Num [simp]: "js_ge (Num a) (Num b) = (b \<le> a)"
  by auto

lemma floor_int_half: "\<lfloor>rat_of_int n + 1 / 2\<rfloor> = n"
  by (rule floor_unique) simp_all

lemma js_mul_512:
  assumes "a < 2 ^ 53"
  shows "js_mul MAX_DIMENSION (Num (of_nat a)) = Num (512 * of_nat a)"
  using to_number_512 [OF assms] by (simp add: js_mul_def MAX_DIMENSION_def)

lemma js_div_nat:
  assumes "0 < b"
  shows "js_div (Num (512 * of_nat a)) (Num (of_nat b)) =
           to_number False (512 * rat_of_nat a / rat_of_nat b)"
  using assms by (simp add: js_div_def)

lemma scaled_equal:
  assumes "0 < a" and "a < 2 ^ 53"
  shows "Math_round (js_div (js_mul MAX_DIMENSION (Num (of_nat a))) (Num (of_nat a))) = Num 512"
proof -
  have q: "512 * rat_of_nat a / rat_of_nat a = rat_of_nat 512" using assms by simp
  have "to_number False (rat_of_nat 512) = Num (rat_of_nat 512)"
    by (rule to_number_nat) simp
  then have "to_number False (512 * rat_of_nat a / rat_of_nat a) = Num (rat_of_nat 512)"
    by (simp only: q)
  then have "js_div (js_mul MAX_DIMENSION (Num (of_nat a))) (Num (of_nat a)) = Num (rat_of_int 512)"
    by (simp add: js_mul_512 [OF assms(2)] js_div_nat [OF assms(1)])
  then show ?thesis
    by (simp only: Math_round.simps floor_int_half) simp
qed

lemma scaled_exact:
  assumes "0 < a" and "a \<le> b" and "b < 2 ^ 44"
  shows "Math_round (js_div (js_mul MAX_DIMENSION (Num (of_nat a))) (Num (of_nat b))) =
           Num (of_int (round (512 * rat_of_nat a / rat_of_nat b)))"
proof (cases "a = b")
  case True
  have "a < 2 ^ 53" using assms(2,3) by (simp add: less_trans [of _ "2 ^ 44"])
  then have "Math_round (js_div (js_mul MAX_DIMENSION (Num (of_nat a))) (Num (of_nat a))) = Num 512"
    by (rule scaled_equal [OF assms(1)])
  moreover have "round (512 * rat_of_nat a / rat_of_nat a) = 512" using assms(1) by simp
  ultimately show ?thesis using True by simp
next
  case False
  with assms(2) have lt: "a < b" by simp
  have b: "0 < b" using assms(1) lt by simp
  have a53: "a < 2 ^ 53" using lt assms(3) by (simp add: less_trans [of _ "2 ^ 44"])
  obtain r where r: "to_number False (512 * rat_of_nat a / rat_of_nat b) = Num r"
    and n: "0 \<le> r"
    and f: "\<lfloor>r + 1 / 2\<rfloor> = \<lfloor>512 * rat_of_nat a / rat_of_nat b + 1 / 2\<rfloor>"
    using quotient_round [OF assms(1) lt assms(3)] by blast
  have "js_div (js_mul MAX_DIMENSION (Num (of_nat a))) (Num (of_nat b)) = Num r"
    by (simp only: js_mul_512 [OF a53] js_div_nat [OF b] r)
  then show ?thesis using n f by (simp add: round_def)
qed


subsection \<open>Reading a descriptor\<close>

declare decimal.simps [simp del]

lemma is_digit_iff: "is_digit c \<longleftrightarrow> 48 \<le> (of_char c :: int) \<and> (of_char c :: int) \<le> 57"
  by (auto simp add: is_digit_def digit_in_base_def Let_def split: option.splits if_splits)

lemma of_char_digit:
  assumes "d < (10 :: nat)"
  shows "(of_char (char_of (48 + d)) :: int) = 48 + int d"
proof -
  have "(of_char (char_of (48 + d)) :: int) = int (of_char (char_of (48 + d)))"
    by (simp only: of_nat_of_char)
  also have "\<dots> = int (48 + d)" using assms by simp
  finally show ?thesis by simp
qed

lemma digit_value_char:
  assumes "d < (10 :: nat)"
  shows "digit_in_base 10 (char_of (48 + d)) = Some (int d)"
  using assms by (simp add: digit_in_base_def Let_def of_char_digit)

lemma is_digit_char: "d < (10 :: nat) \<Longrightarrow> is_digit (char_of (48 + d))"
  by (simp add: is_digit_def digit_value_char)

lemma decimal_digits: "list_all is_digit (decimal n)"
proof (induction n rule: decimal.induct)
  case (1 n)
  show ?case
  proof (cases "n < 10")
    case True
    then show ?thesis by (subst decimal.simps) (simp add: is_digit_char)
  next
    case False
    with "1.IH" show ?thesis by (subst decimal.simps) (simp add: is_digit_char)
  qed
qed

lemma decimal_nonempty: "decimal n \<noteq> []"
  by (subst decimal.simps) simp

lemma decimal_value_snoc:
  "decimal_value (s @ [c]) =
     10 * decimal_value s + (case digit_in_base 10 c of Some d \<Rightarrow> d | None \<Rightarrow> 0)"
  by (simp add: decimal_value_def digits_value_def)

lemma decimal_value_decimal: "decimal_value (decimal n) = int n"
proof (induction n rule: decimal.induct)
  case (1 n)
  show ?case
  proof (cases "n < 10")
    case True
    then have "decimal n = [] @ [char_of (48 + n)]" by (subst decimal.simps) simp
    then show ?thesis
      using True by (simp only: decimal_value_snoc digit_value_char)
        (simp add: decimal_value_def digits_value_def)
  next
    case False
    then have "decimal n = decimal (n div 10) @ [char_of (48 + n mod 10)]"
      by (subst decimal.simps) simp
    moreover have "10 * int (n div 10) + int (n mod 10) = int n"
      by (simp add: zdiv_int zmod_int)
    ultimately show ?thesis
      using "1.IH" False by (simp add: decimal_value_snoc digit_value_char)
  qed
qed

lemma split_on_no_sep: "sep \<notin> set b \<Longrightarrow> split_on sep b = [b]"
  by (induction b) auto

lemma split_on_sep: "sep \<notin> set a \<Longrightarrow> split_on sep (a @ sep # b) = a # split_on sep b"
  by (induction a) auto

lemma digits_not_white:
  assumes "is_digit c"
  shows "\<not> is_StrWhiteSpaceChar c"
  using assms by (auto simp add: is_digit_iff is_StrWhiteSpaceChar_def)

lemma trim_digits:
  assumes "list_all is_digit s"
  shows "trim_StrWhiteSpace s = s"
proof -
  have d: "dropWhile is_StrWhiteSpaceChar t = t" if "list_all is_digit t" for t
    using that by (cases t) (simp_all add: digits_not_white)
  have "list_all is_digit (rev s)" using assms by (simp add: list_all_iff)
  then show ?thesis by (simp add: trim_StrWhiteSpace_def d assms)
qed

lemma radix_prefix_digits:
  assumes "list_all is_digit s"
  shows "radix_prefix s = None"
proof -
  have "\<not> is_digit CHR ''x''" "\<not> is_digit CHR ''X''" "\<not> is_digit CHR ''o''"
    "\<not> is_digit CHR ''O''" "\<not> is_digit CHR ''b''" "\<not> is_digit CHR ''B''"
    by (simp_all add: is_digit_iff)
  then show ?thesis
    using assms by (auto simp add: radix_prefix_def split: list.splits)
qed

lemma takeWhile_all: "list_all P s \<Longrightarrow> takeWhile P s = s"
  by (induction s) simp_all

lemma dropWhile_all: "list_all P s \<Longrightarrow> dropWhile P s = []"
  by (induction s) simp_all

lemma unsigned_digits:
  assumes "list_all is_digit s" and "s \<noteq> []"
  shows "StrUnsignedDecimalLiteral False s = to_number False (of_int (decimal_value s))"
proof -
  have "\<not> is_digit CHR ''I''" by (simp add: is_digit_iff)
  then have "s \<noteq> ''Infinity''" using assms(1) by auto
  then show ?thesis
    using assms
    by (simp add: StrUnsignedDecimalLiteral_def takeWhile_all dropWhile_all Let_def
          ExponentPart_def pow10_def)
qed

lemma Number_digits:
  assumes "list_all is_digit s" and "s \<noteq> []"
  shows "Number s = to_number False (of_int (decimal_value s))"
proof -
  obtain c u where s: "s = c # u" using assms(2) by (cases s) auto
  have "is_digit c" using assms(1) s by simp
  moreover have "\<not> is_digit CHR ''+''" "\<not> is_digit CHR ''-''" by (simp_all add: is_digit_iff)
  ultimately have c: "c \<noteq> CHR ''+''" "c \<noteq> CHR ''-''" by auto
  have t: "trim_StrWhiteSpace s = c # u"
    using trim_digits [OF assms(1)] s by simp
  have r: "radix_prefix (c # u) = None"
    using radix_prefix_digits [OF assms(1)] s by simp
  have "Number s = StrUnsignedDecimalLiteral False (c # u)"
    using c by (simp add: Number_def t r Let_def)
  then have "Number s = StrUnsignedDecimalLiteral False s"
    by (simp only: s)
  then show ?thesis by (simp add: unsigned_digits [OF assms])
qed

lemma Number_decimal:
  assumes "n < 2 ^ 53"
  shows "Number (decimal n) = Num (of_nat n)"
  by (simp add: Number_digits [OF decimal_digits decimal_nonempty] decimal_value_decimal
        to_number_nat [OF assms])

lemma colon_not_digit: "CHR '':'' \<notin> set (decimal n)"
proof
  assume "CHR '':'' \<in> set (decimal n)"
  then have "is_digit CHR '':''" using decimal_digits [of n] by (simp add: list_all_iff)
  then show False by (simp add: is_digit_iff)
qed

lemma parse_descriptor:
  assumes "w < 2 ^ 53" and "h < 2 ^ 53"
  shows "parseAspectRatio (aspect_ratio_descriptor w h) = (Num (of_nat w), Num (of_nat h))"
  by (simp add: parseAspectRatio_def aspect_ratio_descriptor_def split_on_sep split_on_no_sep
        colon_not_digit element_def Number_decimal [OF assms(1)] Number_decimal [OF assms(2)])

lemma Number_literal:
  assumes "list_all is_digit s" and "s \<noteq> []" and "decimal_value s = int n" and "n < 2 ^ 53"
  shows "Number s = Num (of_nat n)"
  using Number_digits [OF assms(1,2)] to_number_nat [OF assms(4)] assms(3) by simp

lemma char_0: "char_of (48 :: nat) = CHR ''0''" by code_simp

lemma char_1: "char_of (49 :: nat) = CHR ''1''" by code_simp

lemma decimal_power10: "decimal (10 ^ k) = CHR ''1'' # replicate k (CHR ''0'')"
proof (induction k)
  case 0
  show ?case by (subst decimal.simps) (simp add: char_1)
next
  case (Suc k)
  have "\<not> (10 :: nat) ^ Suc k < 10" by simp
  then have "decimal (10 ^ Suc k) =
      decimal (10 ^ Suc k div 10) @ [char_of (48 + (10 :: nat) ^ Suc k mod 10)]"
    by (subst decimal.simps) (simp only: if_False)
  also have "\<dots> = decimal (10 ^ k) @ [CHR ''0'']" by (simp add: char_0)
  also have "\<dots> = CHR ''1'' # replicate (Suc k) (CHR ''0'')"
    by (simp add: Suc.IH replicate_append_same)
  finally show ?case .
qed

subsection \<open>The dimensions for a descriptor\<close>

lemma placeholderDimensions_descriptor:
  assumes "w < 2 ^ 53" and "h < 2 ^ 53"
  shows "placeholderDimensions (aspect_ratio_descriptor w h) =
           dimensions (Num (of_nat w)) (Num (of_nat h))"
  by (simp add: placeholderDimensions_def parse_descriptor [OF assms])

lemma dimensions_exact:
  assumes "0 < w" and "w < 2 ^ 44" and "0 < h" and "h < 2 ^ 44"
  shows "dimensions (Num (of_nat w)) (Num (of_nat h)) =
           (if h \<le> w
            then (Num 512, Num (of_int (round (512 * rat_of_nat h / rat_of_nat w))))
            else (Num (of_int (round (512 * rat_of_nat w / rat_of_nat h))), Num 512))"
proof (cases "h \<le> w")
  case True
  then show ?thesis
    using scaled_exact [OF assms(3) True assms(2)]
    by (simp add: dimensions_def) (simp add: MAX_DIMENSION_def)
next
  case False
  then have "w \<le> h" by simp
  then show ?thesis
    using False scaled_exact [OF assms(1) \<open>w \<le> h\<close> assms(4)]
    by (simp add: dimensions_def) (simp add: MAX_DIMENSION_def)
qed

lemma below_2_53: "n < 2 ^ 44 \<Longrightarrow> n < (2 :: nat) ^ 53"
  by (erule less_trans) simp

lemma placeholderDimensions_exact:
  assumes "0 < a" and "a < 2 ^ 44" and "0 < b" and "b < 2 ^ 44"
  shows "placeholderDimensions (aspect_ratio_descriptor a b) =
           (if b \<le> a
            then (Num 512, Num (of_int (round (512 * rat_of_nat b / rat_of_nat a))))
            else (Num (of_int (round (512 * rat_of_nat a / rat_of_nat b))), Num 512))"
  using assms
  by (simp only: placeholderDimensions_descriptor [OF below_2_53 below_2_53] dimensions_exact)

lemma placeholderDimensions_16_9: "placeholderDimensions ''16:9'' = (Num 512, Num 288)"
proof -
  have small: "(0 :: nat) < 16" "(16 :: nat) < 2 ^ 44" "(0 :: nat) < 9" "(9 :: nat) < 2 ^ 44"
    "(9 :: nat) \<le> 16"
    by simp_all
  have d: "aspect_ratio_descriptor 16 9 = ''16:9''" by code_simp
  have r: "rat_of_int (round (512 * rat_of_nat 9 / rat_of_nat 16)) = 288" by code_simp
  show ?thesis
    using placeholderDimensions_exact [OF small(1,2,3,4)] by (simp only: d r small if_True)
qed





subsection \<open>The workflow on the example page\<close>

lemma start_example:
  "generateImage_start e example_page =
     (if getContext_2d e
      then Awaiting (showError [] (setLoading True example_page))
             (build_request ''A yellow camaro!!''
                (index (split_on CHR '','' (toDataURL e (Num 512) (Num 288))) 1))
             ''A yellow camaro!!''
      else Returned (finally_block (catch_block (Error ''Could not get canvas context'')
             (showError [] (setLoading True example_page)))))"
proof -
  have d: "placeholderDimensions ''16:9'' = (Num 512, Num 288)"
    by (rule placeholderDimensions_16_9)
  have a: "aspectRatioSelect_value example_page = ''16:9''"
    and b: "promptInput_value example_page = ''A yellow camaro!!''"
    by (simp_all add: example_page_def)
  have c: "promptInput_value example_page \<noteq> []" by (simp add: b)
  show ?thesis
    by (simp add: generateImage_start_nonempty [OF c] generatePlaceholderImage_cases a b d)
qed

lemma payload_example:
  "index (split_on CHR '','' ''data:image/png;base64,iVBORw0KGgo='') 1 = Some ''iVBORw0KGgo=''"
  by code_simp

lemma example_payload:
  "generatePlaceholderImage example_env aspectRatio = Inr (Some ''iVBORw0KGgo='')"
  by (simp add: generatePlaceholderImage_cases example_env_def index_def)

lemma start_example_Awaiting:
  assumes "getContext_2d e" "toDataURL e = toDataURL example_env"
  shows "generateImage_start e example_page =
       Awaiting (showError [] (setLoading True example_page))
         (build_request ''A yellow camaro!!'' (Some ''iVBORw0KGgo='')) ''A yellow camaro!!''"
proof -
  have "toDataURL e (Num 512) (Num 288) = ''data:image/png;base64,iVBORw0KGgo=''"
    by (simp add: assms(2) example_env_def)
  then show ?thesis
    by (simp only: start_example assms(1) if_True payload_example)
qed

subsection \<open>Runs and events\<close>

lemma generateImage_is_run:
  "run_events e [EnterKey, Settle 0] (idle p) =
     \<lparr>app_page = fst (generateImage e p), in_flight = [], sent = snd (generateImage e p)\<rparr>"
  by (cases "generateImage_start e p")
     (simp_all add: run_events_def step_def trigger_def idle_def generateImage_def)

lemma busy_uninterrupted:
  assumes "promptInput_value p \<noteq> []"
  shows "(\<forall>p1 req t. generateImage_start e p = Awaiting p1 req t \<longrightarrow>
            generateBtn_disabled p1 \<and> ''loading'' \<in> imageDisplayArea_classList p1)
         \<and> \<not> generateBtn_disabled (fst (generateImage e p))
         \<and> ''loading'' \<notin> imageDisplayArea_classList (fst (generateImage e p))"
proof (cases "generatePlaceholderImage e (aspectRatioSelect_value p)")
  case (Inl err)
  then have "generateImage_start e p =
      Returned (finally_block (catch_block err (showError [] (setLoading True p))))"
    by (simp add: generateImage_start_nonempty [OF assms])
  then show ?thesis
    by (simp add: generateImage_def finally_block_idle)
next
  case (Inr b)
  then have "generateImage_start e p =
      Awaiting (showError [] (setLoading True p))
        (build_request (promptInput_value p) b) (promptInput_value p)"
    by (simp add: generateImage_start_nonempty [OF assms])
  then show ?thesis
    by (simp add: generateImage_def generateImage_resume_idle setLoading_True_busy)
qed

subsection \<open>The empty prompt\<close>

text \<open>
  Claim C1, as amended. When the prompt is the empty string, \<^verbatim>\<open>generateImage\<close> sends
  no request to the capability and shows the message \<^verbatim>\<open>Please enter a prompt.\<close>; nothing
  else on the page changes. The test is \<^verbatim>\<open>!promptText\<close> on the value of the input as it
  is: the script trims nothing.
\<close>

theorem empty_prompt_no_call:
  assumes "promptInput_value p = []"
  shows "snd (generateImage e p) = []
         \<and> fst (generateImage e p) =
             p\<lparr>errorMessage_textContent := ''Please enter a prompt.'',
               errorMessage_display := ''block''\<rparr>"
  using assms by (simp add: generateImage_def generateImage_start_def showError_def)

theorem empty_prompt_no_call_witness:
  "promptInput_value (example_page\<lparr>promptInput_value := []\<rparr>) = []
   \<and> snd (generateImage example_env (example_page\<lparr>promptInput_value := []\<rparr>)) = []
   \<and> errorMessage_textContent
        (fst (generateImage example_env (example_page\<lparr>promptInput_value := []\<rparr>))) =
       ''Please enter a prompt.''"
proof -
  have h: "promptInput_value (example_page\<lparr>promptInput_value := []\<rparr>) = []" by simp
  show ?thesis
    using h empty_prompt_no_call [OF h, of example_env] by simp
qed

text \<open>
  Claim C1 as it is written fails for a prompt of two spaces: the prompt is not empty, so
  the request is sent, with the two spaces in its text, and the run ends with no error
  message on the page.
\<close>

theorem whitespace_prompt_is_sent:
  "snd (generateImage example_env (example_page\<lparr>promptInput_value := ''  ''\<rparr>)) =
     [build_request ''  '' (Some ''iVBORw0KGgo='')]
   \<and> errorMessage_textContent
        (fst (generateImage example_env (example_page\<lparr>promptInput_value := ''  ''\<rparr>))) = []"
proof -
  have c: "promptInput_value (example_page\<lparr>promptInput_value := ''  ''\<rparr>) \<noteq> []" by simp
  have s: "generateImage_start example_env (example_page\<lparr>promptInput_value := ''  ''\<rparr>) =
      Awaiting (showError [] (setLoading True (example_page\<lparr>promptInput_value := ''  ''\<rparr>)))
        (build_request ''  '' (Some ''iVBORw0KGgo='')) ''  ''"
    by (simp add: generateImage_start_nonempty [OF c] example_payload)
  have g: "generateContent example_env (build_request ''  '' (Some ''iVBORw0KGgo='')) =
      Inr example_response"
    by (simp add: example_env_def)
  have h: "handle_response example_response ''  '' q = displayImage ''AAAA'' ''image/png'' ''  '' q"
    for q
    by (simp add: handle_response_def example_response_def text_part_def image_part_def)
  show ?thesis
    by (simp add: generateImage_def s g generateImage_resume_def h showError_cleared)
qed

subsection \<open>The dimensions of the placeholder\<close>

text \<open>
  Claim C2, as amended. For the descriptor of two positive integers \<open>w\<close> and \<open>h\<close> below
  \<open>2 ^ 44\<close>, the width and height given to the canvas are 512 and \<open>512 * h / w\<close> rounded
  when \<open>w \<ge> h\<close>, and \<open>512 * w / h\<close> rounded and 512 otherwise; \<^verbatim>\<open>16:9\<close> gives
  (512, 288), \<^verbatim>\<open>9:16\<close> gives (288, 512) and \<^verbatim>\<open>1:1\<close> gives (512, 512). Here
  \<^const>\<open>round\<close> is \<open>\<lfloor>x + 1 / 2\<rfloor>\<close> of the exact quotient, and the script applies
  \<^verbatim>\<open>Math.round\<close> to the quotient rounded to a double.
\<close>

theorem placeholder_dimensions:
  assumes "0 < w" and "w < 2 ^ 44" and "0 < h" and "h < 2 ^ 44"
  shows "placeholderDimensions (aspect_ratio_descriptor w h) =
           (if h \<le> w
            then (Num 512, Num (of_int (round (512 * rat_of_nat h / rat_of_nat w))))
            else (Num (of_int (round (512 * rat_of_nat w / rat_of_nat h))), Num 512))
         \<and> placeholderDimensions ''16:9'' = (Num 512, Num 288)
         \<and> placeholderDimensions ''9:16'' = (Num 288, Num 512)
         \<and> placeholderDimensions ''1:1'' = (Num 512, Num 512)"
proof (intro conjI)
  show "placeholderDimensions (aspect_ratio_descriptor w h) =
           (if h \<le> w
            then (Num 512, Num (of_int (round (512 * rat_of_nat h / rat_of_nat w))))
            else (Num (of_int (round (512 * rat_of_nat w / rat_of_nat h))), Num 512))"
    by (rule placeholderDimensions_exact [OF assms])
  have small: "(0 :: nat) < 16" "(16 :: nat) < 2 ^ 44" "(0 :: nat) < 9" "(9 :: nat) < 2 ^ 44"
    "(0 :: nat) < 1" "(1 :: nat) < 2 ^ 44" "\<not> (16 :: nat) \<le> 9" "(1 :: nat) \<le> 1"
    by simp_all
  have d2: "aspect_ratio_descriptor 9 16 = ''9:16''" by code_simp
  have d3: "aspect_ratio_descriptor 1 1 = ''1:1''" by code_simp
  have r1: "rat_of_int (round (512 * rat_of_nat 9 / rat_of_nat 16)) = 288" by code_simp
  have r3: "rat_of_int (round (512 * rat_of_nat 1 / rat_of_nat 1)) = 512" by code_simp
  show "placeholderDimensions ''16:9'' = (Num 512, Num 288)"
    by (rule placeholderDimensions_16_9)
  show "placeholderDimensions ''9:16'' = (Num 288, Num 512)"
    using placeholderDimensions_exact [OF small(3,4,1,2)] by (simp only: d2 r1 small if_False)
  show "placeholderDimensions ''1:1'' = (Num 512, Num 512)"
    using placeholderDimensions_exact [OF small(5,6,5,6)] by (simp only: d3 r3 small if_True)
qed

theorem placeholder_dimensions_witness:
  "(0 :: nat) < 3 \<and> (3 :: nat) < 2 ^ 44 \<and> (0 :: nat) < 2 \<and> (2 :: nat) < 2 ^ 44
   \<and> aspect_ratio_descriptor 3 2 = ''3:2''
   \<and> placeholderDimensions ''3:2'' = (Num 512, Num 341)"
proof -
  have small: "(0 :: nat) < 3" "(3 :: nat) < 2 ^ 44" "(0 :: nat) < 2" "(2 :: nat) < 2 ^ 44"
    "(2 :: nat) \<le> 3"
    by simp_all
  have d: "aspect_ratio_descriptor 3 2 = ''3:2''" by code_simp
  have r: "rat_of_int (round (512 * rat_of_nat 2 / rat_of_nat 3)) = 341" by code_simp
  have "placeholderDimensions ''3:2'' = (Num 512, Num 341)"
    using placeholder_dimensions [OF small(1,2,3,4), THEN conjunct1]
    by (simp only: d r small if_True)
  then show ?thesis
    by (intro conjI small(1,2,3,4) d)
qed

text \<open>
  Claim C2 as it is written fails for larger components. For
  \<^verbatim>\<open>17592186044419:11733850652674\<close> the exact quotient is just below 341.5 and rounds to
  341, the double nearest to it is 341.5, and the script computes the height 342.
\<close>

theorem placeholder_dimensions_rounding:
  "parseAspectRatio ''17592186044419:11733850652674'' =
     (Num 17592186044419, Num 11733850652674)
   \<and> placeholderDimensions ''17592186044419:11733850652674'' = (Num 512, Num 342)
   \<and> round (512 * 11733850652674 / 17592186044419 :: rat) = 341"
proof -
  have w: "Number ''17592186044419'' = Num (rat_of_nat 17592186044419)"
  proof (rule Number_literal)
    show "list_all is_digit ''17592186044419''" by (simp add: is_digit_iff)
    have "decimal_value ''17592186044419'' = 17592186044419" by code_simp
    then show "decimal_value ''17592186044419'' = int 17592186044419" by simp
  qed simp_all
  have h: "Number ''11733850652674'' = Num (rat_of_nat 11733850652674)"
  proof (rule Number_literal)
    show "list_all is_digit ''11733850652674''" by (simp add: is_digit_iff)
    have "decimal_value ''11733850652674'' = 11733850652674" by code_simp
    then show "decimal_value ''11733850652674'' = int 11733850652674" by simp
  qed simp_all
  have p: "parseAspectRatio ''17592186044419:11733850652674'' =
             (Num (rat_of_nat 17592186044419), Num (rat_of_nat 11733850652674))"
    by (simp add: parseAspectRatio_def element_def w h)
  have q: "to_number False (512 * 11733850652674 / 17592186044419) = Num (683 / 2)"
    by code_simp
  have m: "Math_round (Num (683 / 2)) = Num 342"
    by code_simp
  have "(11733850652674 :: nat) < 2 ^ 53" and "(0 :: nat) < 17592186044419"
    by simp_all
  then have "js_div (js_mul MAX_DIMENSION (Num (rat_of_nat 11733850652674)))
          (Num (rat_of_nat 17592186044419)) =
        to_number False (512 * rat_of_nat 11733850652674 / rat_of_nat 17592186044419)"
    by (simp only: js_mul_512 js_div_nat)
  then have "js_div (js_mul MAX_DIMENSION (Num (rat_of_nat 11733850652674)))
          (Num (rat_of_nat 17592186044419)) = Num (683 / 2)"
    by (simp only: of_nat_numeral q)
  then have d: "dimensions (Num (rat_of_nat 17592186044419)) (Num (rat_of_nat 11733850652674)) =
             (Num 512, Num 342)"
    by (simp add: dimensions_def m) (simp add: MAX_DIMENSION_def)
  have r: "round (512 * 11733850652674 / 17592186044419 :: rat) = 341"
    by code_simp
  show ?thesis
    using p d r by (simp add: placeholderDimensions_def)
qed

subsection \<open>The first image of the response\<close>

text \<open>
  Claim C3. When the first candidate has a part with inline data, and no part before it
  has any, the run ends with the image of that part on the page, built from its payload
  and its mime type, whatever the later parts and the later candidates are. When the
  response has no list of candidates, or an empty one, or a first candidate without any
  part with inline data, the run ends with the message that the model returned no image;
  it does not go through the \<^verbatim>\<open>catch\<close> block.
\<close>

theorem first_image_wins:
  "(candidates r = Some (c # cs) \<and> content_parts c = pre @ x # post
      \<and> (\<forall>y\<in>set pre. part_inlineData y = None) \<and> part_inlineData x = Some b
    \<longrightarrow> generateImage_resume t p (Inr r) =
          finally_block (displayImage (blob_data b) (blob_mimeType b) t p)
        \<and> imageDisplayArea_children (generateImage_resume t p (Inr r)) =
            [Img (''data:'' @ blob_mimeType b @ '';base64,'' @ blob_data b) t,
             DownloadLink (Serialized (''data:'' @ blob_mimeType b @ '';base64,'' @ blob_data b))
               (safeFilename t @ ''.png'')])
   \<and> (candidates r = None \<or> candidates r = Some []
        \<or> (\<exists>c cs. candidates r = Some (c # cs)
              \<and> (\<forall>y\<in>set (content_parts c). part_inlineData y = None))
      \<longrightarrow> generateImage_resume t p (Inr r) =
            finally_block
              (showError ''The model did not return an image. Please try a different prompt.'' p)
          \<and> errorMessage_textContent (generateImage_resume t p (Inr r)) =
              ''The model did not return an image. Please try a different prompt.''
          \<and> errorMessage_display (generateImage_resume t p (Inr r)) = ''block'')"
proof (intro conjI impI)
  assume a: "candidates r = Some (c # cs) \<and> content_parts c = pre @ x # post
      \<and> (\<forall>y\<in>set pre. part_inlineData y = None) \<and> part_inlineData x = Some b"
  then have h: "handle_response r t p = displayImage (blob_data b) (blob_mimeType b) t p"
    using handle_response_image [of r c cs pre x post b t p] by simp
  show "generateImage_resume t p (Inr r) =
          finally_block (displayImage (blob_data b) (blob_mimeType b) t p)"
    by (simp add: generateImage_resume_def h)
  then show "imageDisplayArea_children (generateImage_resume t p (Inr r)) =
            [Img (''data:'' @ blob_mimeType b @ '';base64,'' @ blob_data b) t,
             DownloadLink (Serialized (''data:'' @ blob_mimeType b @ '';base64,'' @ blob_data b))
               (safeFilename t @ ''.png'')]"
    by (simp only: finally_block_keeps_image)
next
  assume a: "candidates r = None \<or> candidates r = Some []
        \<or> (\<exists>c cs. candidates r = Some (c # cs)
              \<and> (\<forall>y\<in>set (content_parts c). part_inlineData y = None))"
  then have h: "handle_response r t p =
      showError ''The model did not return an image. Please try a different prompt.'' p"
    by (rule handle_response_no_image)
  show g: "generateImage_resume t p (Inr r) =
            finally_block
              (showError ''The model did not return an image. Please try a different prompt.'' p)"
    by (simp add: generateImage_resume_def h)
  show "errorMessage_textContent (generateImage_resume t p (Inr r)) =
              ''The model did not return an image. Please try a different prompt.''"
    by (simp add: g showError_shown)
  show "errorMessage_display (generateImage_resume t p (Inr r)) = ''block''"
    by (simp add: g showError_shown)
qed

theorem first_image_wins_witness:
  "candidates example_response =
     Some (\<lparr>content_parts = [text_part ''Here is your image.''] @
               image_part ''image/png'' ''AAAA'' # [image_part ''image/jpeg'' ''BBBB'']\<rparr>
           # [\<lparr>content_parts = [image_part ''image/webp'' ''CCCC'']\<rparr>])
   \<and> part_inlineData (text_part ''Here is your image.'') = None
   \<and> part_inlineData (image_part ''image/png'' ''AAAA'') =
       Some \<lparr>blob_mimeType = ''image/png'', blob_data = ''AAAA''\<rparr>
   \<and> imageDisplayArea_children
         (generateImage_resume ''A yellow camaro!!'' example_page (Inr example_response)) =
       [Img ''data:image/png;base64,AAAA'' ''A yellow camaro!!'',
        DownloadLink (Serialized ''data:image/png;base64,AAAA'') ''A_yellow_camaro__.png'']
   \<and> candidates text_only_response =
       Some (\<lparr>content_parts = [text_part ''I cannot draw that.'']\<rparr>
             # [\<lparr>content_parts = [image_part ''image/webp'' ''CCCC'']\<rparr>])
   \<and> part_inlineData (text_part ''I cannot draw that.'') = None
   \<and> errorMessage_textContent
         (generateImage_resume ''A yellow camaro!!'' example_page (Inr text_only_response)) =
       ''The model did not return an image. Please try a different prompt.''"
proof -
  have c1: "candidates example_response =
     Some (\<lparr>content_parts = [text_part ''Here is your image.''] @
               image_part ''image/png'' ''AAAA'' # [image_part ''image/jpeg'' ''BBBB'']\<rparr>
           # [\<lparr>content_parts = [image_part ''image/webp'' ''CCCC'']\<rparr>])"
    by (simp add: example_response_def)
  have n1: "part_inlineData (text_part ''Here is your image.'') = None"
    by (simp add: text_part_def)
  have i1: "part_inlineData (image_part ''image/png'' ''AAAA'') =
       Some \<lparr>blob_mimeType = ''image/png'', blob_data = ''AAAA''\<rparr>"
    by (simp add: image_part_def)
  have c2: "candidates text_only_response =
       Some (\<lparr>content_parts = [text_part ''I cannot draw that.'']\<rparr>
             # [\<lparr>content_parts = [image_part ''image/webp'' ''CCCC'']\<rparr>])"
    by (simp add: text_only_response_def)
  have n2: "part_inlineData (text_part ''I cannot draw that.'') = None"
    by (simp add: text_part_def)
  have f: "safeFilename ''A yellow camaro!!'' = ''A_yellow_camaro__''"
    by code_simp
  have p1: "content_parts
              \<lparr>content_parts = [text_part ''Here is your image.''] @
                 image_part ''image/png'' ''AAAA'' # [image_part ''image/jpeg'' ''BBBB'']\<rparr> =
            [text_part ''Here is your image.''] @
              image_part ''image/png'' ''AAAA'' # [image_part ''image/jpeg'' ''BBBB'']"
    by simp
  have q1: "\<forall>y\<in>set [text_part ''Here is your image.'']. part_inlineData y = None"
    by (simp add: n1)
  have "imageDisplayArea_children
         (generateImage_resume ''A yellow camaro!!'' example_page (Inr example_response)) =
       [Img (''data:'' @ blob_mimeType \<lparr>blob_mimeType = ''image/png'', blob_data = ''AAAA''\<rparr>
               @ '';base64,'' @ blob_data \<lparr>blob_mimeType = ''image/png'', blob_data = ''AAAA''\<rparr>)
          ''A yellow camaro!!'',
        DownloadLink
          (Serialized
            (''data:'' @ blob_mimeType \<lparr>blob_mimeType = ''image/png'', blob_data = ''AAAA''\<rparr>
               @ '';base64,'' @ blob_data \<lparr>blob_mimeType = ''image/png'', blob_data = ''AAAA''\<rparr>))
          (safeFilename ''A yellow camaro!!'' @ ''.png'')]"
    by (rule first_image_wins
      [of example_response
          "\<lparr>content_parts = [text_part ''Here is your image.''] @
               image_part ''image/png'' ''AAAA'' # [image_part ''image/jpeg'' ''BBBB'']\<rparr>"
          "[\<lparr>content_parts = [image_part ''image/webp'' ''CCCC'']\<rparr>]"
          "[text_part ''Here is your image.'']"
          "image_part ''image/png'' ''AAAA''"
          "[image_part ''image/jpeg'' ''BBBB'']"
          "\<lparr>blob_mimeType = ''image/png'', blob_data = ''AAAA''\<rparr>"
          "''A yellow camaro!!''" example_page,
       THEN conjunct1, THEN mp, OF conjI [OF c1 conjI [OF p1 conjI [OF q1 i1]]],
       THEN conjunct2])
  then have a: "imageDisplayArea_children
         (generateImage_resume ''A yellow camaro!!'' example_page (Inr example_response)) =
       [Img ''data:image/png;base64,AAAA'' ''A yellow camaro!!'',
        DownloadLink (Serialized ''data:image/png;base64,AAAA'') ''A_yellow_camaro__.png'']"
    by (simp add: f)
  have q2: "candidates text_only_response = None \<or> candidates text_only_response = Some []
        \<or> (\<exists>c cs. candidates text_only_response = Some (c # cs)
              \<and> (\<forall>y\<in>set (content_parts c). part_inlineData y = None))"
    using c2 n2 by simp
  have b: "errorMessage_textContent
         (generateImage_resume ''A yellow camaro!!'' example_page (Inr text_only_response)) =
       ''The model did not return an image. Please try a different prompt.''"
    by (rule first_image_wins
      [of text_only_response _ _ _ _ _ _ "''A yellow camaro!!''" example_page,
       THEN conjunct2, THEN mp, OF q2, THEN conjunct2, THEN conjunct1])
  show ?thesis
    by (intro conjI c1 n1 i1 a c2 n2 b)
qed

subsection \<open>The message of a failed call\<close>

text \<open>
  Claim C4, as amended. When the call throws, the message shown is the fixed text
  \<^verbatim>\<open>An error occurred: \<close> followed by the message of the error, unchanged.
\<close>

theorem remote_error_message:
  assumes "generateImage_start e p = Awaiting p1 req t"
    and "generateContent e req = Inl err"
  shows "errorMessage_textContent (fst (generateImage e p)) = ''An error occurred: '' @ message err
         \<and> errorMessage_display (fst (generateImage e p)) = ''block''"
  using assms
  by (simp add: generateImage_def generateImage_resume_def catch_block_def showError_shown)

theorem remote_error_message_witness:
  "generateImage_start failing_env example_page =
       Awaiting (showError [] (setLoading True example_page))
         (build_request ''A yellow camaro!!'' (Some ''iVBORw0KGgo='')) ''A yellow camaro!!''
   \<and> generateContent failing_env (build_request ''A yellow camaro!!'' (Some ''iVBORw0KGgo='')) =
       Inl (Error ''Failed to fetch'')
   \<and> errorMessage_textContent (fst (generateImage failing_env example_page)) =
       ''An error occurred: Failed to fetch''"
proof -
  have s: "generateImage_start failing_env example_page =
       Awaiting (showError [] (setLoading True example_page))
         (build_request ''A yellow camaro!!'' (Some ''iVBORw0KGgo='')) ''A yellow camaro!!''"
    by (rule start_example_Awaiting) (simp_all add: failing_env_def example_env_def)
  have f: "generateContent failing_env
             (build_request ''A yellow camaro!!'' (Some ''iVBORw0KGgo='')) =
           Inl (Error ''Failed to fetch'')"
    by (simp add: failing_env_def)
  show ?thesis
    using s f remote_error_message [OF s f] by simp
qed

text \<open>
  Claim C4 as it is written fails: the message shown is not the message of the error
  alone. For the error \<^verbatim>\<open>Failed to fetch\<close> the page shows
  \<^verbatim>\<open>An error occurred: Failed to fetch\<close>.
\<close>

theorem remote_error_message_prefixed:
  "generateContent failing_env (build_request ''A yellow camaro!!'' (Some ''iVBORw0KGgo='')) =
       Inl (Error ''Failed to fetch'')
   \<and> snd (generateImage failing_env example_page) =
       [build_request ''A yellow camaro!!'' (Some ''iVBORw0KGgo='')]
   \<and> errorMessage_textContent (fst (generateImage failing_env example_page)) \<noteq>
       ''Failed to fetch''"
proof -
  have s: "generateImage_start failing_env example_page =
       Awaiting (showError [] (setLoading True example_page))
         (build_request ''A yellow camaro!!'' (Some ''iVBORw0KGgo='')) ''A yellow camaro!!''"
    by (rule start_example_Awaiting) (simp_all add: failing_env_def example_env_def)
  have f: "generateContent failing_env
             (build_request ''A yellow camaro!!'' (Some ''iVBORw0KGgo='')) =
           Inl (Error ''Failed to fetch'')"
    by (simp add: failing_env_def)
  show ?thesis
    by (simp add: generateImage_def s f generateImage_resume_def catch_block_def showError_def)
qed

subsection \<open>The smaller dimension\<close>




subsection \<open>The busy state\<close>

text \<open>
  Claim C6. The page is busy when the button is disabled and the display area has the
  class \<^verbatim>\<open>loading\<close>. The claim holds for a run that nothing interrupts
  (\<open>busy_uninterrupted\<close>), and the end of every run clears the busy state
  (\<open>generateImage_resume_idle\<close>). It fails when two runs overlap: the button is disabled
  while a call is in flight, but the handler of the Enter key starts a second run all the
  same, and when the first call settles the first run clears the busy state while the
  call of the second run is still in flight.
\<close>

theorem overlapping_runs_clear_busy:
  "promptInput_value example_page \<noteq> []
   \<and> in_flight (run_events example_env [EnterKey, EnterKey] (idle example_page)) =
       [(build_request ''A yellow camaro!!'' (Some ''iVBORw0KGgo=''), ''A yellow camaro!!''),
        (build_request ''A yellow camaro!!'' (Some ''iVBORw0KGgo=''), ''A yellow camaro!!'')]
   \<and> in_flight (run_events example_env [EnterKey, EnterKey, Settle 0] (idle example_page)) =
       [(build_request ''A yellow camaro!!'' (Some ''iVBORw0KGgo=''), ''A yellow camaro!!'')]
   \<and> \<not> generateBtn_disabled
         (app_page (run_events example_env [EnterKey, EnterKey, Settle 0] (idle example_page)))
   \<and> ''loading'' \<notin> imageDisplayArea_classList
         (app_page (run_events example_env [EnterKey, EnterKey, Settle 0] (idle example_page)))"
proof -
  define p1 where "p1 = showError [] (setLoading True example_page)"
  define p2 where "p2 = showError [] (setLoading True p1)"
  define r where "r = build_request ''A yellow camaro!!'' (Some ''iVBORw0KGgo='')"
  have n0: "promptInput_value example_page \<noteq> []" by (simp add: example_page_def)
  have v1: "promptInput_value p1 = ''A yellow camaro!!''"
    by (simp add: p1_def showError_def setLoading_def clearOutput_def example_page_def)
  then have n1: "promptInput_value p1 \<noteq> []" by simp
  have s1: "generateImage_start example_env example_page = Awaiting p1 r ''A yellow camaro!!''"
    unfolding p1_def r_def by (rule start_example_Awaiting) (simp_all add: example_env_def)
  have s2: "generateImage_start example_env p1 = Awaiting p2 r ''A yellow camaro!!''"
    by (simp add: generateImage_start_nonempty [OF n1] example_payload v1 p2_def r_def)
  have two: "run_events example_env [EnterKey, EnterKey] (idle example_page) =
      \<lparr>app_page = p2, in_flight = [(r, ''A yellow camaro!!''), (r, ''A yellow camaro!!'')],
        sent = [r, r]\<rparr>"
    by (simp add: run_events_def step_def trigger_def idle_def s1 s2)
  have three: "run_events example_env [EnterKey, EnterKey, Settle 0] (idle example_page) =
      \<lparr>app_page = generateImage_resume ''A yellow camaro!!'' p2 (generateContent example_env r),
        in_flight = [(r, ''A yellow camaro!!'')], sent = [r, r]\<rparr>"
    by (simp add: run_events_def step_def trigger_def idle_def s1 s2)
  show ?thesis
    unfolding r_def [symmetric]
    by (simp add: n0 two three generateImage_resume_idle)
qed

subsection \<open>The request\<close>

text \<open>
  Claim C7, as amended. For a prompt that is not empty: when the canvas gives a context,
  \<^verbatim>\<open>generatePlaceholderImage\<close> returns a payload and the run sends exactly one request,
  whatever the outcome of the call; the request names the model, carries the prompt
  followed by \<^verbatim>\<open>. Do not change the input aspect ratio.\<close> and the payload as inline
  data of type \<^verbatim>\<open>image/png\<close>, and asks for the image and text modalities. When the
  canvas gives no context, \<^verbatim>\<open>generatePlaceholderImage\<close> throws and no request is sent.
\<close>

theorem one_request:
  assumes "promptInput_value p \<noteq> []"
  shows "(case generatePlaceholderImage e (aspectRatioSelect_value p) of
            Inr placeholderBase64 \<Rightarrow>
              getContext_2d e \<and>
              snd (generateImage e p) =
                [\<lparr>request_model = ''gemini-2.5-flash-image-preview'',
                   request_contents =
                     [TextPart (promptInput_value p @ ''. Do not change the input aspect ratio.''),
                      InlineDataPart ''image/png'' placeholderBase64],
                   request_responseModalities = [IMAGE, TEXT]\<rparr>]
          | Inl err \<Rightarrow> \<not> getContext_2d e \<and> snd (generateImage e p) = [])"
  by (simp add: generateImage_def generateImage_start_nonempty [OF assms]
        generatePlaceholderImage_cases build_request_def)

theorem one_request_witness:
  "promptInput_value example_page \<noteq> []
   \<and> getContext_2d example_env
   \<and> snd (generateImage example_env example_page) =
       [\<lparr>request_model = ''gemini-2.5-flash-image-preview'',
          request_contents =
            [TextPart ''A yellow camaro!!. Do not change the input aspect ratio.'',
             InlineDataPart ''image/png'' (Some ''iVBORw0KGgo='')],
          request_responseModalities = [IMAGE, TEXT]\<rparr>]"
proof -
  have h: "promptInput_value example_page \<noteq> []" by (simp add: example_page_def)
  have g: "generatePlaceholderImage example_env (aspectRatioSelect_value example_page) =
             Inr (Some ''iVBORw0KGgo='')"
    by (rule example_payload)
  have p: "promptInput_value example_page = ''A yellow camaro!!''"
    by (simp add: example_page_def)
  show ?thesis
    using h one_request [OF h, of example_env] by (simp add: g p)
qed

text \<open>
  Claim C7 as it is written fails when the canvas gives no context: the prompt is not
  empty and no request is sent.
\<close>

theorem no_canvas_no_request:
  "promptInput_value example_page \<noteq> []
   \<and> snd (generateImage no_canvas_env example_page) = []"
proof -
  have h: "promptInput_value example_page \<noteq> []" by (simp add: example_page_def)
  have n: "\<not> getContext_2d no_canvas_env" by (simp add: no_canvas_env_def)
  show ?thesis
    using h by (simp add: generateImage_def start_example n)
qed

subsection \<open>The name of the download\<close>

text \<open>
  Claim C8. The download link that \<^verbatim>\<open>displayImage\<close> adds has the name
  \<^verbatim>\<open>safeFilename\<close> followed by \<^verbatim>\<open>.png\<close>. For a prompt that is not empty,
  \<^verbatim>\<open>safeFilename\<close> has the length of the prompt, 30 at most, and at each position the
  code unit of the prompt when it is a letter of A to Z or a to z or a digit, and
  \<^verbatim>\<open>_\<close> otherwise; it is empty only for the empty prompt, where the name is
  \<^verbatim>\<open>genbanana-art\<close>. The prompt \<^verbatim>\<open>A yellow camaro!!\<close> gives \<^verbatim>\<open>A_yellow_camaro__\<close>.
\<close>

theorem download_filename:
  "imageDisplayArea_children (displayImage base64Data mimeType prompt p) ! 1 =
     DownloadLink (Serialized (''data:'' @ mimeType @ '';base64,'' @ base64Data)) (safeFilename prompt @ ''.png'')
   \<and> (prompt = [] \<longrightarrow> safeFilename prompt = ''genbanana-art'')
   \<and> (prompt \<noteq> [] \<longrightarrow>
        length (safeFilename prompt) = min 30 (length prompt)
        \<and> (\<forall>i < length (safeFilename prompt).
              safeFilename prompt ! i =
                (if is_alphanumeric (prompt ! i) then prompt ! i else CHR ''_'')))
   \<and> safeFilename ''A yellow camaro!!'' = ''A_yellow_camaro__''"
proof (intro conjI impI)
  show "imageDisplayArea_children (displayImage base64Data mimeType prompt p) ! 1 =
     DownloadLink (Serialized (''data:'' @ mimeType @ '';base64,'' @ base64Data)) (safeFilename prompt @ ''.png'')"
    by (simp add: displayImage_def Let_def)
  show "safeFilename prompt = ''genbanana-art''" if "prompt = []"
    using that by (simp add: safeFilename_def)
  show "length (safeFilename prompt) = min 30 (length prompt)" if "prompt \<noteq> []"
    using that by (simp add: safeFilename_nonempty min.commute)
  show "\<forall>i < length (safeFilename prompt).
              safeFilename prompt ! i =
                (if is_alphanumeric (prompt ! i) then prompt ! i else CHR ''_'')" if "prompt \<noteq> []"
    using that by (simp add: safeFilename_nonempty)
  show "safeFilename ''A yellow camaro!!'' = ''A_yellow_camaro__''"
    by code_simp
qed

theorem download_filename_witness:
  "''A yellow camaro!!'' \<noteq> []
   \<and> (8 :: nat) < length (safeFilename ''A yellow camaro!!'')
   \<and> ''A yellow camaro!!'' ! 8 = CHR '' ''
   \<and> safeFilename ''A yellow camaro!!'' ! 8 = CHR ''_''
   \<and> safeFilename [] = ''genbanana-art''"
proof -
  have ne: "''A yellow camaro!!'' \<noteq> []"
    by simp
  note d = download_filename
    [of "''AAAA''" "''image/png''" "''A yellow camaro!!''" example_page,
     THEN conjunct2, THEN conjunct2, THEN conjunct1, THEN mp, OF ne]
  have l: "(8 :: nat) < length (safeFilename ''A yellow camaro!!'')"
    using d [THEN conjunct1] by simp
  have n: "\<not> is_alphanumeric (CHR '' '')"
    by (simp add: is_alphanumeric_def)
  have c: "''A yellow camaro!!'' ! 8 = CHR '' ''"
    by simp
  have u: "safeFilename ''A yellow camaro!!'' ! 8 = CHR ''_''"
    using d [THEN conjunct2, THEN spec, of 8, THEN mp, OF l] by (simp only: c n if_False)
  have e: "[] = ([] :: string)"
    by simp
  have g: "safeFilename [] = ''genbanana-art''"
    by (rule download_filename
      [of "''AAAA''" "''image/png''" "[]" example_page,
       THEN conjunct2, THEN conjunct1, THEN mp, OF e])
  show ?thesis
    by (intro conjI ne l c u g)
qed

subsection \<open>Swapping the two components\<close>




subsection \<open>The error message while the call is in flight\<close>



end
